theory Spec2Isabelle
  imports Main "HOL-Library.Multiset"
begin

section \<open>Data model (MapCodec.ts)\<close>

text \<open>
  The two interfaces of the codec's entry file. A JavaScript \<open>number\<close> that holds a size,
  a bit field or a palette index is a natural number; a cell index that the code forms by
  subtraction (\<open>point - 1\<close>, \<open>point - width\<close>) is an \<open>int\<close>. A \<open>Uint16Array\<close> is a list of
  naturals, and every store into one is written out as \<open>mod 65536\<close>.
\<close>

record TileType =
  name :: string
  colorBase :: string
  colorVariant :: nat
  conquerable :: bool
  navigable :: bool
  expansionTime :: nat
  expansionCost :: nat

record RawMapData =
  width :: nat
  height :: nat
  tiles :: "nat list"
  types :: "TileType list"

text \<open>
  What a call can end with besides a value. \<open>UnsupportedVersion\<close> is the \<open>Error\<close> thrown by
  \<open>decodeMap\<close>, \<open>UnknownTileType\<close> the \<open>CodecException\<close> of \<open>validateTileTypeUsage\<close>.
  \<open>StringTooLong\<close>, \<open>InvalidString\<close>, \<open>Truncated\<close> and \<open>InvalidInput\<close> are the error kinds the
  specification lists for the bit stream and the public interface. \<open>TypeError\<close> is the
  engine's exception when a property of \<open>undefined\<close> is read. \<open>UndefinedValue\<close> marks the
  places where the source would go on computing with \<open>undefined\<close>, \<open>NaN\<close> or \<open>-Infinity\<close>
  as if it were a number (an array read outside its bounds, a remainder by zero, the
  logarithm of zero): the model stops there.
\<close>

datatype error =
    UnsupportedVersion nat
  | UnknownTileType nat
  | StringTooLong
  | InvalidString
  | Truncated
  | InvalidInput
  | TypeError
  | UndefinedValue

section \<open>Sequencing of results\<close>

text \<open>
  A call either returns a value or throws: \<open>error + 'a\<close>, with \<open>Inl\<close> the error. A call that
  contains a loop which may run forever returns an \<open>option\<close> around that, \<open>None\<close> standing
  for a call that does not return. \<open>thenR\<close> and \<open>thenD\<close> run the rest of a function on the
  value of a call that returned one; \<open>foldR\<close> and \<open>foldD\<close> are \<open>for\<close> loops over a list whose
  body may throw.
\<close>

definition thenR :: "error + 'a \<Rightarrow> ('a \<Rightarrow> error + 'b) \<Rightarrow> error + 'b" where
  "thenR r f = (case r of Inl e \<Rightarrow> Inl e | Inr x \<Rightarrow> f x)"

definition thenD :: "(error + 'a) option \<Rightarrow> ('a \<Rightarrow> (error + 'b) option) \<Rightarrow> (error + 'b) option" where
  "thenD r f = (case r of None \<Rightarrow> None | Some (Inl e) \<Rightarrow> Some (Inl e) | Some (Inr x) \<Rightarrow> f x)"

fun foldR :: "('a \<Rightarrow> 's \<Rightarrow> error + 's) \<Rightarrow> 'a list \<Rightarrow> 's \<Rightarrow> error + 's" where
  "foldR f [] st = Inr st"
| "foldR f (x # xs) st = thenR (f x st) (foldR f xs)"

fun foldD :: "('a \<Rightarrow> 's \<Rightarrow> (error + 's) option) \<Rightarrow> 'a list \<Rightarrow> 's \<Rightarrow> (error + 's) option" where
  "foldD f [] st = Some (Inr st)"
| "foldD f (x # xs) st = thenD (f x st) (foldD f xs)"

section \<open>Bit stream (util/LazyWriter.ts, util/StreamReader.ts)\<close>

text \<open>
  Modelled from the spec: the classes \<open>LazyWriter\<close> and \<open>StreamReader\<close> are imported by the
  codec but their files are not among the sources. The specification (4.1) gives their
  interface: \<open>writeBits(n, value)\<close> and \<open>readBits(n)\<close> pack an unsigned integer of \<open>n\<close> bits,
  most significant bit first; a boolean is one bit; a string is a length prefix of
  \<open>ceil(log2(maxChars + 1))\<close> bits followed by eight bits per byte of the string, and fails
  with \<open>StringTooLong\<close> on writing and \<open>InvalidString\<close> on reading when the length exceeds
  \<open>maxChars\<close>; reading past the end fails with \<open>Truncated\<close>; the writer's final bytes pad
  the last byte with zero bits. A writer is the list of bits written so far, a reader the
  list of bits not yet read. The specification does not say what \<open>writeBits\<close> does with a
  value of more than \<open>n\<close> bits; here the low \<open>n\<close> bits are written.
\<close>

type_synonym bits = "bool list"

fun bitsOf :: "nat \<Rightarrow> nat \<Rightarrow> bits" where
  "bitsOf 0 v = []"
| "bitsOf (Suc n) v = bitsOf n (v div 2) @ [odd v]"

definition valueOf :: "bits \<Rightarrow> nat" where
  "valueOf bs = foldl (\<lambda>acc b. 2 * acc + (if b then 1 else 0)) 0 bs"

text \<open>\<open>Math.ceil(Math.log2(n))\<close> for \<open>n \<ge> 1\<close>: the least \<open>k\<close> with \<open>n \<le> 2 ^ k\<close>.\<close>

fun ceilLog2 :: "nat \<Rightarrow> nat" where
  "ceilLog2 n = (if n \<le> 1 then 0 else Suc (ceilLog2 ((n + 1) div 2)))"

declare ceilLog2.simps [simp del]

definition writeBits :: "nat \<Rightarrow> nat \<Rightarrow> bits \<Rightarrow> bits" where
  "writeBits n v wr = wr @ bitsOf n v"

definition writeBoolean :: "bool \<Rightarrow> bits \<Rightarrow> bits" where
  "writeBoolean b wr = wr @ [b]"

definition writeString :: "nat \<Rightarrow> string \<Rightarrow> bits \<Rightarrow> error + bits" where
  "writeString maxChars s wr =
     (if length s > maxChars then Inl StringTooLong
      else Inr (wr @ bitsOf (ceilLog2 (maxChars + 1)) (length s) @ concat (map (\<lambda>c. bitsOf 8 (of_char c)) s)))"

fun bytesOf :: "bits \<Rightarrow> nat list" where
  "bytesOf [] = []"
| "bytesOf (b # bs) = valueOf (take 8 (b # bs @ replicate 7 False)) # bytesOf (drop 7 bs)"

definition compress :: "bits \<Rightarrow> nat list" where
  "compress wr = bytesOf wr"

definition streamReader :: "nat list \<Rightarrow> bits" where
  "streamReader data = concat (map (bitsOf 8) data)"

definition readBits :: "nat \<Rightarrow> bits \<Rightarrow> error + (nat \<times> bits)" where
  "readBits n r = (if length r < n then Inl Truncated else Inr (valueOf (take n r), drop n r))"

definition readBoolean :: "bits \<Rightarrow> error + (bool \<times> bits)" where
  "readBoolean r = (case r of [] \<Rightarrow> Inl Truncated | b # r' \<Rightarrow> Inr (b, r'))"

fun readChars :: "nat \<Rightarrow> bits \<Rightarrow> error + (string \<times> bits)" where
  "readChars 0 r = Inr ([], r)"
| "readChars (Suc n) r =
     thenR (readBits 8 r) (\<lambda>(c, r1).
     thenR (readChars n r1) (\<lambda>(s, r2). Inr (char_of c # s, r2)))"

definition readString :: "nat \<Rightarrow> bits \<Rightarrow> error + (string \<times> bits)" where
  "readString maxChars r =
     thenR (readBits (ceilLog2 (maxChars + 1)) r) (\<lambda>(len, r1).
       if len > maxChars then Inl InvalidString else readChars len r1)"

section \<open>ZoneCalculator (util/ZoneCalculator.ts)\<close>

text \<open>
  Array reads and writes as JavaScript has them. \<open>aget a i\<close> is \<open>a[i]\<close>, with \<open>None\<close> for the
  \<open>undefined\<close> of an index outside the array; two such reads are compared with \<open>===\<close>, which
  is equality of the options. \<open>u16set\<close> is a store into a \<open>Uint16Array\<close>: the value is taken
  modulo \<open>2^16\<close> and a store outside the array is ignored. \<open>truthy\<close> is the test \<open>if (a[i])\<close>.
  \<open>jsrem a w\<close> is \<open>a % w\<close>, with \<open>None\<close> for the \<open>NaN\<close> of a zero divisor; the remainder has the
  sign of \<open>a\<close>.
\<close>

definition aget :: "nat list \<Rightarrow> int \<Rightarrow> nat option" where
  "aget a i = (if 0 \<le> i \<and> i < int (length a) then Some (a ! nat i) else None)"

definition u16set :: "nat list \<Rightarrow> int \<Rightarrow> nat \<Rightarrow> nat list" where
  "u16set a i v = (if 0 \<le> i \<and> i < int (length a) then a[nat i := v mod 65536] else a)"

definition truthy :: "nat option \<Rightarrow> bool" where
  "truthy v = (case v of None \<Rightarrow> False | Some n \<Rightarrow> n \<noteq> 0)"

definition jsrem :: "int \<Rightarrow> nat \<Rightarrow> int option" where
  "jsrem a w = (if w = 0 then None else if a < 0 then Some (- ((- a) mod int w)) else Some (a mod int w))"

text \<open>
  \<open>TileZone\<close>: the source's field \<open>id\<close> is \<open>tileId\<close> here. Its field \<open>tileMap\<close> is the one
  \<open>zoneMap\<close> array that all zones share and that \<open>buildZones\<close> goes on writing after a zone
  is returned, so the model returns that array once, next to the list of zones, in its
  final state. A sparse \<open>boolean[]\<close> such as \<open>leftBorderMap\<close> is the set of indices that hold
  \<open>true\<close>.
\<close>

record TileZone =
  tileId :: nat
  leftBorder :: "int list"
  leftBorderMap :: "int set"
  topBorder :: "int list"
  topBorderMap :: "int set"

text \<open>The arrays that the loop of \<open>exploreZone\<close> updates.\<close>

record ExploreState =
  zoneMap :: "nat list"
  leftB :: "int list"
  leftBMap :: "int set"
  topB :: "int list"
  topBMap :: "int set"

text \<open>
  \<^verbatim>\<open>
  while (stackPointer > 0) {
    const current = stack[--stackPointer];
    if (zoneMap[current]) continue;
    zoneMap[current] = zoneId;
    if (current % width !== 0 && tileTypes[current - 1] === tileTypes[current])
      stack[stackPointer++] = current - 1;
    else if (!leftBorderMap[current]) { leftBorder.push(current); leftBorderMap[current] = true; }
    if (current % width !== width - 1 && tileTypes[current + 1] === tileTypes[current])
      stack[stackPointer++] = current + 1;
    if (current >= width && tileTypes[current - width] === tileTypes[current])
      stack[stackPointer++] = current - width;
    else if (!topBorderMap[current]) { topBorder.push(current); topBorderMap[current] = true; }
    if (current < tileTypes.length - width && tileTypes[current + width] === tileTypes[current])
      stack[stackPointer++] = current + width;
  }
  \<close>
  The stack is a list whose head is the top (the entries of the source's array above
  \<open>stackPointer\<close> are never read). \<open>exploreCell\<close> is the body of the loop after the
  \<open>continue\<close>; the loop itself may run forever (when the store of \<open>zoneId\<close> leaves the
  cell falsy), so it is a partial function and \<open>None\<close> is a call that does not return.
\<close>

definition exploreCell :: "nat list \<Rightarrow> nat \<Rightarrow> nat \<Rightarrow> int \<Rightarrow> int list \<Rightarrow> ExploreState \<Rightarrow> int list \<times> ExploreState" where
  "exploreCell tileTypes w zoneId current stack st =
     (let st1 = st\<lparr>zoneMap := u16set (zoneMap st) current zoneId\<rparr>;
          goLeft = (jsrem current w \<noteq> Some 0 \<and> aget tileTypes (current - 1) = aget tileTypes current);
          stack1 = (if goLeft then (current - 1) # stack else stack);
          st2 = (if \<not> goLeft \<and> current \<notin> leftBMap st1
                 then st1\<lparr>leftB := leftB st1 @ [current], leftBMap := insert current (leftBMap st1)\<rparr>
                 else st1);
          stack2 = (if jsrem current w \<noteq> Some (int w - 1) \<and> aget tileTypes (current + 1) = aget tileTypes current
                    then (current + 1) # stack1 else stack1);
          goUp = (current \<ge> int w \<and> aget tileTypes (current - int w) = aget tileTypes current);
          stack3 = (if goUp then (current - int w) # stack2 else stack2);
          st3 = (if \<not> goUp \<and> current \<notin> topBMap st2
                 then st2\<lparr>topB := topB st2 @ [current], topBMap := insert current (topBMap st2)\<rparr>
                 else st2);
          stack4 = (if current < int (length tileTypes) - int w \<and> aget tileTypes (current + int w) = aget tileTypes current
                    then (current + int w) # stack3 else stack3)
      in (stack4, st3))"

partial_function (option) exploreZone_loop ::
  "nat list \<Rightarrow> nat \<Rightarrow> nat \<Rightarrow> int list \<Rightarrow> ExploreState \<Rightarrow> ExploreState option" where
  "exploreZone_loop tileTypes w zoneId stack st =
     (case stack of
        [] \<Rightarrow> Some st
      | current # rest \<Rightarrow>
          if truthy (aget (zoneMap st) current) then exploreZone_loop tileTypes w zoneId rest st
          else (case exploreCell tileTypes w zoneId current rest st of
                  (stack', st') \<Rightarrow> exploreZone_loop tileTypes w zoneId stack' st'))"

definition exploreZone :: "nat \<Rightarrow> nat list \<Rightarrow> nat \<Rightarrow> nat list \<Rightarrow> nat \<Rightarrow> (TileZone \<times> nat list) option" where
  "exploreZone tile tileTypes w zm zoneId =
     (case exploreZone_loop tileTypes w zoneId [int tile]
             \<lparr>zoneMap = zm, leftB = [], leftBMap = {}, topB = [], topBMap = {}\<rparr> of
        None \<Rightarrow> None
      | Some st \<Rightarrow>
          Some (\<lparr>tileId = tileTypes ! tile, leftBorder = leftB st, leftBorderMap = leftBMap st,
                 topBorder = topB st, topBorderMap = topBMap st\<rparr>, zoneMap st))"

text \<open>
  \<^verbatim>\<open>
  const zoneMap: Uint16Array = new Uint16Array(data.width * data.height);
  for (let i = 0; i < data.tiles.length; i++) {
    if (!zoneMap[i]) {
      result.push(this.exploreZone(i, data.tiles, data.width, zoneMap, result.length + 1));
    }
  }
  \<close>
\<close>

fun buildZones_loop :: "nat list \<Rightarrow> nat \<Rightarrow> nat list \<Rightarrow> TileZone list \<times> nat list \<Rightarrow> (TileZone list \<times> nat list) option" where
  "buildZones_loop tls w [] acc = Some acc"
| "buildZones_loop tls w (i # is) (result, zm) =
     (if \<not> truthy (aget zm (int i)) then
        (case exploreZone i tls w zm (length result + 1) of
           None \<Rightarrow> None
         | Some (zone, zm') \<Rightarrow> buildZones_loop tls w is (result @ [zone], zm'))
      else buildZones_loop tls w is (result, zm))"

definition buildZones :: "RawMapData \<Rightarrow> (TileZone list \<times> nat list) option" where
  "buildZones data =
     buildZones_loop (tiles data) (width data) [0..<length (tiles data)]
       ([], replicate (width data * height data) 0)"


section \<open>MapEncoder: paths between border points\<close>

text \<open>
  \<open>RawLineData\<close> is \<open>{from, to, path}\<close> and \<open>LineData\<close> is \<open>{id, line}\<close>; the fields are renamed
  where the source's name is taken in Isabelle. \<open>indexOf\<close> is \<open>Array.prototype.indexOf\<close>.
\<close>

record RawLineData =
  cfrom :: nat
  cto :: nat
  cpath :: "int list"

record LineData =
  lineId :: nat
  lineCells :: "int list"

definition indexOf :: "'a list \<Rightarrow> 'a \<Rightarrow> int" where
  "indexOf xs x = (if x \<in> set xs then int (length (takeWhile (\<lambda>y. y \<noteq> x) xs)) else - 1)"

text \<open>
  \<^verbatim>\<open>
  const open: number[] = [start];
  const paths: number[][] = [[]];
  const visited: boolean[] = [];
  visited[start] = true;
  const result: Map<number, number[]> = new Map();
  while (open.length > 0) {
    const point = open.shift() as number;
    const path = paths.shift() as number[];
    if (pointMap[point]) { result.set(point, path.slice(0, -1)); }
    if (path.length < 8) {
      for (const nextPoint of [point - 1, point + 1, point - this.width, point + this.width]) {
        if (!visited[nextPoint] && tileMap[nextPoint] === zoneId) {
          open.push(nextPoint);
          paths.push([...path, nextPoint]);
          visited[nextPoint] = true;
        }
      }
    }
  }
  \<close>
  The two queues \<open>open\<close> and \<open>paths\<close> are shifted and pushed together and are one list of
  pairs here. The \<open>Map\<close> is the list of its entries in insertion order: a point is queued
  once, so no key is set twice. \<open>visitNeighbour\<close> is the body of the inner \<open>for\<close>.
\<close>

definition visitNeighbour :: "nat \<Rightarrow> nat list \<Rightarrow> int list \<Rightarrow> int \<Rightarrow>
    (int \<times> int list) list \<times> int set \<Rightarrow> (int \<times> int list) list \<times> int set" where
  "visitNeighbour zoneId tileMap path nextPoint acc =
     (case acc of (queue, visited) \<Rightarrow>
        if nextPoint \<notin> visited \<and> aget tileMap nextPoint = Some zoneId
        then (queue @ [(nextPoint, path @ [nextPoint])], insert nextPoint visited)
        else (queue, visited))"

definition path_weight :: "(int \<times> int list) list \<Rightarrow> nat" where
  "path_weight queue = sum_list (map (\<lambda>(p, path). 5 ^ (8 - length path)) queue)"

lemma path_weight_visit:
  "length path < 8 \<Longrightarrow>
   path_weight (fst (visitNeighbour zoneId tileMap path n (queue, visited)))
     \<le> path_weight queue + 5 ^ (7 - length path)"
  by (simp add: visitNeighbour_def path_weight_def Suc_diff_Suc)

function calculatePaths_loop :: "nat \<Rightarrow> int set \<Rightarrow> nat \<Rightarrow> nat list \<Rightarrow>
    (int \<times> int list) list \<Rightarrow> int set \<Rightarrow> (int \<times> int list) list \<Rightarrow> (int \<times> int list) list" where
  "calculatePaths_loop w pointMap zoneId tileMap [] visited result = result"
| "calculatePaths_loop w pointMap zoneId tileMap ((point, path) # queue) visited result =
     (let result' = (if point \<in> pointMap then result @ [(point, butlast path)] else result) in
      if length path < 8 then
        (case fold (visitNeighbour zoneId tileMap path)
                [point - 1, point + 1, point - int w, point + int w] (queue, visited) of
           (queue', visited') \<Rightarrow> calculatePaths_loop w pointMap zoneId tileMap queue' visited' result')
      else calculatePaths_loop w pointMap zoneId tileMap queue visited result')"
  by pat_completeness auto
termination
proof (relation "measure (\<lambda>(w, pointMap, zoneId, tileMap, queue, visited, result). path_weight queue)", goal_cases)
  case 1 show ?case by simp
next
  case (2 w pointMap zoneId tileMap point path queue visited result result' queue' visited')
  obtain q1 v1 where s1: "visitNeighbour zoneId tileMap path (point - 1) (queue, visited) = (q1, v1)"
    by (cases "visitNeighbour zoneId tileMap path (point - 1) (queue, visited)")
  obtain q2 v2 where s2: "visitNeighbour zoneId tileMap path (point + 1) (q1, v1) = (q2, v2)"
    by (cases "visitNeighbour zoneId tileMap path (point + 1) (q1, v1)")
  obtain q3 v3 where s3: "visitNeighbour zoneId tileMap path (point - int w) (q2, v2) = (q3, v3)"
    by (cases "visitNeighbour zoneId tileMap path (point - int w) (q2, v2)")
  obtain q4 v4 where s4: "visitNeighbour zoneId tileMap path (point + int w) (q3, v3) = (q4, v4)"
    by (cases "visitNeighbour zoneId tileMap path (point + int w) (q3, v3)")
  from 2 have len: "length path < 8" by simp
  define k :: nat where "k = 5 ^ (7 - length path)"
  have kpos: "0 < k" by (simp add: k_def)
  have b1: "path_weight q1 \<le> path_weight queue + k"
    using path_weight_visit [OF len, of zoneId tileMap "point - 1" queue visited] s1 by (simp add: k_def)
  have b2: "path_weight q2 \<le> path_weight q1 + k"
    using path_weight_visit [OF len, of zoneId tileMap "point + 1" q1 v1] s2 by (simp add: k_def)
  have b3: "path_weight q3 \<le> path_weight q2 + k"
    using path_weight_visit [OF len, of zoneId tileMap "point - int w" q2 v2] s3 by (simp add: k_def)
  have b4: "path_weight q4 \<le> path_weight q3 + k"
    using path_weight_visit [OF len, of zoneId tileMap "point + int w" q3 v3] s4 by (simp add: k_def)
  have q: "queue' = q4" using 2 s1 s2 s3 s4 by simp
  have "(5::nat) ^ (8 - length path) = 5 * k"
    using len by (simp add: k_def Suc_diff_le flip: power_Suc)
  then have "path_weight ((point, path) # queue) = path_weight queue + 5 * k"
    by (simp add: path_weight_def)
  then have "path_weight queue' < path_weight ((point, path) # queue)"
    using b1 b2 b3 b4 kpos unfolding q by linarith
  then show ?case by simp
next
  case (3 w pointMap zoneId tileMap point path queue visited result result')
  then show ?case by (simp add: path_weight_def)
qed

definition calculatePaths :: "nat \<Rightarrow> int \<Rightarrow> int set \<Rightarrow> nat \<Rightarrow> nat list \<Rightarrow> (int \<times> int list) list" where
  "calculatePaths w start pointMap zoneId tileMap =
     calculatePaths_loop w pointMap zoneId tileMap [(start, [])] {start} []"


section \<open>MapEncoder: connections and stitching\<close>

text \<open>
  \<^verbatim>\<open>
  for (let i = 0; i < points.length; i++) {
    const paths = this.calculatePaths(points[i], pointMap, zoneId, tileMap);
    for (const [point, path] of paths) {
      const index = points.indexOf(point);
      if (index >= i) continue; //only add each connection once
      connectionMap[path.length].push({from: i, to: index, path});
    }
  }
  \<close>
  A point of \<open>pointMap\<close> that is not in \<open>points\<close> would be recorded with \<open>to = -1\<close> and read as
  \<open>border[-1]\<close> later: \<open>UndefinedValue\<close>. A path of eight or more cells would push onto a
  bucket that does not exist: \<open>TypeError\<close>.
\<close>

definition addConnection :: "int list \<Rightarrow> nat \<Rightarrow> int \<times> int list \<Rightarrow> RawLineData list list \<Rightarrow> error + RawLineData list list" where
  "addConnection points i entry connectionMap =
     (case entry of (point, path) \<Rightarrow>
        let index = indexOf points point in
        if index \<ge> int i then Inr connectionMap
        else if index < 0 then Inl UndefinedValue
        else if length path \<ge> length connectionMap then Inl TypeError
        else Inr (connectionMap[length path :=
                    connectionMap ! length path @ [\<lparr>cfrom = i, cto = nat index, cpath = path\<rparr>]]))"

definition calculateConnections :: "nat \<Rightarrow> int list \<Rightarrow> int set \<Rightarrow> nat \<Rightarrow> nat list \<Rightarrow> error + RawLineData list list" where
  "calculateConnections w points pointMap zoneId tileMap =
     foldR (\<lambda>i. foldR (addConnection points i) (calculatePaths w (points ! i) pointMap zoneId tileMap))
       [0..<length points] (replicate 8 [])"

text \<open>
  \<open>first\<close> is \<open>segment[0]\<close> and \<open>lastOpt\<close> is \<open>segment[segment.length - 1]\<close>, \<open>None\<close> on an empty
  array. \<open>concatSegment\<close> and \<open>connectSegments\<close> change their segment in place; here they
  return the new segment. In \<open>connectSegments\<close>, \<open>segmentA.reverse()\<close> reverses \<open>segmentA\<close> in
  place before the \<open>return\<close> reads \<open>segmentA[0]\<close>, which is \<open>segmentA'\<close> here.
  \<^verbatim>\<open>
  if (segmentB[0] === startB) {
    if (segmentA[0] === startA) segmentB.unshift(...segmentA.reverse(), ...path);
    else segmentB.unshift(...segmentA, ...path);
  } else {
    if (segmentA[0] === startA) segmentB.push(...path.reverse(), ...segmentA);
    else segmentB.push(...path.reverse(), ...segmentA.reverse());
  }
  return segmentA[0] === startA ? segmentA[segmentA.length - 1] : segmentA[0];
  \<close>
\<close>

definition first :: "'a list \<Rightarrow> 'a option" where
  "first xs = (case xs of [] \<Rightarrow> None | x # _ \<Rightarrow> Some x)"

definition lastOpt :: "'a list \<Rightarrow> 'a option" where
  "lastOpt xs = (if xs = [] then None else Some (last xs))"

definition concatSegment :: "int list \<Rightarrow> int list \<Rightarrow> int \<Rightarrow> int \<Rightarrow> int list" where
  "concatSegment segment path ending toAdd =
     (if first segment = Some ending then toAdd # path @ segment
      else segment @ rev path @ [toAdd])"

definition connectSegments :: "int list \<Rightarrow> int list \<Rightarrow> int \<Rightarrow> int \<Rightarrow> int list \<Rightarrow> int list \<times> int option" where
  "connectSegments segmentA segmentB startA startB path =
     (let aFirst = (first segmentA = Some startA);
          segmentB' =
            (if first segmentB = Some startB then
               (if aFirst then rev segmentA @ path @ segmentB else segmentA @ path @ segmentB)
             else
               (if aFirst then segmentB @ rev path @ segmentA else segmentB @ rev path @ rev segmentA));
          segmentA' =
            (if (first segmentB = Some startB) = aFirst then rev segmentA else segmentA)
      in (segmentB', if first segmentA' = Some startA then lastOpt segmentA' else first segmentA'))"

text \<open>
  The state of the stitching loop: \<open>segments\<close>, \<open>segmentMap\<close> (a sparse array, also written at
  index \<open>-1\<close> when \<open>indexOf\<close> finds nothing) and \<open>connectionCount\<close> (a \<open>Uint8Array\<close>).
  \<open>processConnection\<close> returns whether it connected, with the new \<open>segments\<close> and
  \<open>segmentMap\<close>. Reading \<open>segments[segmentMap[...]]\<close> where \<open>segmentMap\<close> has no entry gives
  \<open>undefined\<close>, and the read of its element \<open>0\<close> throws: \<open>TypeError\<close>. \<open>stitch\<close> is the body of
  the loop over the connections in \<open>calculateNeededLines\<close>.
\<close>

type_synonym stitching = "int list list \<times> (int \<rightharpoonup> nat) \<times> nat list"

definition processConnection :: "bool \<Rightarrow> bool \<Rightarrow> RawLineData \<Rightarrow> int list list \<Rightarrow> int list \<Rightarrow> (int \<rightharpoonup> nat)
    \<Rightarrow> error + (bool \<times> int list list \<times> (int \<rightharpoonup> nat))" where
  "processConnection fromIsNew toIsNew connection segments border segmentMap =
     (let valueFrom = border ! cfrom connection;
          valueTo = border ! cto connection;
          from = int (cfrom connection);
          to = int (cto connection)
      in
      if fromIsNew \<and> toIsNew then
        Inr (True, segments @ [valueFrom # cpath connection @ [valueTo]],
             segmentMap(to \<mapsto> length segments, from \<mapsto> length segments))
      else if fromIsNew then
        (case segmentMap to of
           None \<Rightarrow> Inl TypeError
         | Some k \<Rightarrow>
             if k \<ge> length segments then Inl TypeError
             else Inr (True, segments[k := concatSegment (segments ! k) (cpath connection) valueTo valueFrom],
                       segmentMap(from \<mapsto> k)))
      else if toIsNew then
        (case segmentMap from of
           None \<Rightarrow> Inl TypeError
         | Some k \<Rightarrow>
             if k \<ge> length segments then Inl TypeError
             else Inr (True, segments[k := concatSegment (segments ! k) (rev (cpath connection)) valueFrom valueTo],
                       segmentMap(to \<mapsto> k)))
      else if segmentMap from \<noteq> segmentMap to then
        (case (segmentMap from, segmentMap to) of
           (Some ka, Some kb) \<Rightarrow>
             if ka \<ge> length segments \<or> kb \<ge> length segments then Inl TypeError
             else
               (case connectSegments (segments ! ka) (segments ! kb) valueFrom valueTo (cpath connection) of
                  (segmentB', start) \<Rightarrow>
                    Inr (True, segments[kb := segmentB', ka := []],
                         segmentMap((case start of None \<Rightarrow> - 1 | Some c \<Rightarrow> indexOf border c) \<mapsto> kb)))
         | _ \<Rightarrow> Inl TypeError)
      else Inr (False, segments, segmentMap))"

definition stitch :: "int list \<Rightarrow> RawLineData \<Rightarrow> stitching \<Rightarrow> error + stitching" where
  "stitch points connection st =
     (case st of (segments, segmentMap, connectionCount) \<Rightarrow>
        if cfrom connection \<ge> length connectionCount \<or> cto connection \<ge> length connectionCount
        then Inl UndefinedValue
        else if connectionCount ! cfrom connection \<ge> 2 \<or> connectionCount ! cto connection \<ge> 2
        then Inr st
        else
          thenR (processConnection (connectionCount ! cfrom connection = 0) (connectionCount ! cto connection = 0)
                   connection segments points segmentMap)
            (\<lambda>(connected, segments', segmentMap').
               if \<not> connected then Inr (segments', segmentMap', connectionCount)
               else
                 (let count1 = connectionCount[cfrom connection := (connectionCount ! cfrom connection + 1) mod 256];
                      count2 = count1[cto connection := (count1 ! cto connection + 1) mod 256]
                  in Inr (segments', segmentMap', count2))))"

definition addSingles :: "int list \<Rightarrow> nat list \<Rightarrow> int list list \<Rightarrow> int list list" where
  "addSingles border connectionCount lines =
     lines @ map (\<lambda>i. [border ! i]) (filter (\<lambda>i. connectionCount ! i = 0) [0..<length border])"

section \<open>MapEncoder: cropping\<close>

text \<open>
  \<^verbatim>\<open>
  private static cropLines(lines: number[][]) {
    for (let i = 0; i < lines.length; i++) {
      const line = lines[i];
      if (line && line.length > 256) {
        lines[i] = line.slice(0, 256);
        lines.push(line.slice(256));
      }
    }
  }
  \<close>
  The loop bound \<open>lines.length\<close> is read again at every iteration, so the loop also reaches
  the segments it pushed. Every entry of \<open>lines\<close> is an array, hence truthy.
\<close>

definition crop_measure :: "nat \<Rightarrow> int list list \<Rightarrow> nat" where
  "crop_measure i lines = sum_list (map (\<lambda>l. Suc (length l div 256)) (drop i lines))"

lemma crop_measure_step:
  "i < length lines \<Longrightarrow>
   crop_measure i lines = Suc (length (lines ! i) div 256) + crop_measure (Suc i) lines"
  by (simp add: crop_measure_def Cons_nth_drop_Suc [symmetric])

lemma crop_measure_push:
  "i < length lines \<Longrightarrow>
   crop_measure (Suc i) (lines[i := x] @ [t]) = crop_measure (Suc i) lines + Suc (length t div 256)"
  by (simp add: crop_measure_def)

function cropLines_loop :: "nat \<Rightarrow> int list list \<Rightarrow> int list list" where
  "cropLines_loop i lines =
     (if i < length lines then
        (let line = lines ! i in
         if length line > 256
         then cropLines_loop (i + 1) (lines[i := take 256 line] @ [drop 256 line])
         else cropLines_loop (i + 1) lines)
      else lines)"
  by pat_completeness auto
termination
proof (relation "measure (\<lambda>(i, lines). crop_measure i lines)", goal_cases)
  case 1 show ?case by simp
next
  case (2 i lines line)
  then have "crop_measure i lines = Suc (length (lines ! i) div 256) + crop_measure (Suc i) lines"
    and "crop_measure (Suc i) (lines[i := take 256 line] @ [drop 256 line]) =
         crop_measure (Suc i) lines + Suc (length (drop 256 line) div 256)"
    by (simp_all only: crop_measure_step crop_measure_push)
  then show ?case
    using 2 le_div_geq [of 256 "length (lines ! i)"] by simp
next
  case (3 i lines line)
  then have "crop_measure i lines = Suc (length (lines ! i) div 256) + crop_measure (Suc i) lines"
    by (simp only: crop_measure_step)
  then show ?case by simp
qed

declare cropLines_loop.simps [simp del]

definition cropLines :: "int list list \<Rightarrow> int list list" where
  "cropLines lines = cropLines_loop 0 lines"

text \<open>
  \<^verbatim>\<open>
  for (let depth = 0; depth < connectionMap.length; depth++) {
    for (const connection of connectionMap[depth]) { ... }
  }
  MapEncoder.cropLines(segments);
  MapEncoder.addSingles(points, connectionCount, segments);
  return segments.filter(segment => segment.length > 0);
  \<close>
  The two nested loops run over the buckets in order, that is over their concatenation.
\<close>

definition calculateNeededLines :: "nat \<Rightarrow> int list \<Rightarrow> int set \<Rightarrow> nat \<Rightarrow> nat list \<Rightarrow> error + int list list" where
  "calculateNeededLines w points pointMap zoneId tileMap =
     thenR (calculateConnections w points pointMap zoneId tileMap) (\<lambda>connectionMap.
     thenR (foldR (stitch points) (concat connectionMap) ([], Map.empty, replicate (length points) 0))
       (\<lambda>(segments, segmentMap, connectionCount).
          Inr (filter (\<lambda>segment. length segment > 0)
                 (addSingles points connectionCount (cropLines segments)))))"


section \<open>MapEncoder: chunks and cost\<close>

text \<open>
  \<^verbatim>\<open>
  const chunkX = Math.floor((line.line[0] % this.width) / 32);
  const chunkY = Math.floor(Math.floor(line.line[0] / this.width) / 32);
  chunkMap[i] = chunkY * chunkWidth + chunkX;      // chunkWidth = Math.ceil(this.width / 32)
  ...
  lines.sort((a, b) => chunkMap[lines.indexOf(a)] - chunkMap[lines.indexOf(b)]);
  \<close>
  The chunk of a line is \<open>NaN\<close> (\<open>None\<close>) when the width is zero or the line is empty; a sort
  with such keys is \<open>UndefinedValue\<close>. \<open>Array.prototype.sort\<close> is stable and sorts a copy
  that it writes back, so \<open>lines.indexOf(a)\<close> inside the comparison sees the array as it was
  before the call: the sort is \<open>sort_key\<close> on the key \<open>chunkMap[lines.indexOf(a)]\<close>.
\<close>

definition chunkId :: "nat \<Rightarrow> int \<Rightarrow> int option" where
  "chunkId w position =
     (case jsrem position w of
        None \<Rightarrow> None
      | Some x \<Rightarrow> Some ((position div int w) div 32 * int ((w + 31) div 32) + x div 32))"

definition startChunk :: "nat \<Rightarrow> LineData \<Rightarrow> int option" where
  "startChunk w ln = (case lineCells ln of [] \<Rightarrow> None | position # _ \<Rightarrow> chunkId w position)"

definition chunkLines :: "nat \<Rightarrow> LineData list \<Rightarrow> error + LineData list" where
  "chunkLines w lines =
     (case those (map (startChunk w) lines) of
        None \<Rightarrow> Inl UndefinedValue
      | Some chunkMap \<Rightarrow>
          Inr (sort_key (\<lambda>a. chunkMap ! nat (indexOf lines a)) lines))"

text \<open>
  \<^verbatim>\<open>
  const chunk = ...;
  cost += (line.line.length - 1) * 2 + 20 + typeLength + (chunk - currentChunk);
  currentChunk = chunk;
  \<close>
  \<open>typeLength\<close> is \<open>None\<close> when it is the \<open>-Infinity\<close> of an empty palette.
\<close>

definition lineCost :: "nat \<Rightarrow> nat option \<Rightarrow> LineData \<Rightarrow> int \<times> int \<Rightarrow> error + int \<times> int" where
  "lineCost w typeLength ln acc =
     (case acc of (cost, currentChunk) \<Rightarrow>
        (case (startChunk w ln, typeLength) of
           (Some chunk, Some tlen) \<Rightarrow>
             Inr (cost + ((int (length (lineCells ln)) - 1) * 2 + 20 + int tlen + (chunk - currentChunk)), chunk)
         | _ \<Rightarrow> Inl UndefinedValue))"

definition calculateCost :: "nat \<Rightarrow> LineData list \<Rightarrow> nat option \<Rightarrow> error + int" where
  "calculateCost w lines typeLength =
     thenR (foldR (lineCost w typeLength) lines (0, 0)) (\<lambda>(cost, currentChunk). Inr cost)"

text \<open>
  \<^verbatim>\<open>
  for (let zoneId = 0; zoneId < zones.length; zoneId++) {
    const zone = zones[zoneId];
    linesL2R.push(...this.calculateNeededLines(zone.leftBorder, zone.leftBorderMap, zoneId + 1,
      zone.tileMap).map(line => ({id: zone.id, line})));
    linesT2B.push(...this.calculateNeededLines(zone.topBorder, zone.topBorderMap, zoneId + 1,
      zone.tileMap).map(line => ({id: zone.id, line})));
  }
  this.chunkLines(linesL2R);
  this.chunkLines(linesT2B);
  const costL2R = this.calculateCost(linesL2R, typeLength);
  const costT2B = this.calculateCost(linesT2B, typeLength);
  writer.writeBoolean(costL2R > costT2B);
  return costL2R > costT2B ? linesT2B : linesL2R;
  \<close>
\<close>

definition zoneLines :: "nat \<Rightarrow> nat list \<Rightarrow> nat \<times> TileZone \<Rightarrow> LineData list \<times> LineData list
    \<Rightarrow> error + LineData list \<times> LineData list" where
  "zoneLines w tileMap entry acc =
     (case entry of (zoneId, zone) \<Rightarrow>
      case acc of (linesL2R, linesT2B) \<Rightarrow>
        thenR (calculateNeededLines w (leftBorder zone) (leftBorderMap zone) (zoneId + 1) tileMap) (\<lambda>l2r.
        thenR (calculateNeededLines w (topBorder zone) (topBorderMap zone) (zoneId + 1) tileMap) (\<lambda>t2b.
          Inr (linesL2R @ map (\<lambda>ln. \<lparr>lineId = tileId zone, lineCells = ln\<rparr>) l2r,
               linesT2B @ map (\<lambda>ln. \<lparr>lineId = tileId zone, lineCells = ln\<rparr>) t2b))))"

definition calculateLines :: "nat \<Rightarrow> bits \<Rightarrow> TileZone list \<Rightarrow> nat list \<Rightarrow> nat option \<Rightarrow> error + LineData list \<times> bits" where
  "calculateLines w wr zones tileMap typeLength =
     thenR (foldR (zoneLines w tileMap) (zip [0..<length zones] zones) ([], [])) (\<lambda>(l2r, t2b).
     thenR (chunkLines w l2r) (\<lambda>linesL2R.
     thenR (chunkLines w t2b) (\<lambda>linesT2B.
     thenR (calculateCost w linesL2R typeLength) (\<lambda>costL2R.
     thenR (calculateCost w linesT2B typeLength) (\<lambda>costT2B.
       Inr (if costL2R > costT2B then linesT2B else linesL2R, writeBoolean (costL2R > costT2B) wr))))))"

section \<open>MapEncoder: palette\<close>

text \<open>
  \<open>typeLengthOf n\<close> is \<open>Math.ceil(Math.log2(n))\<close>, \<open>None\<close> for the \<open>-Infinity\<close> of \<open>n = 0\<close>.
  \<^verbatim>\<open>
  const tileUsage: TileZone[][] = Array(types.length).fill(null).map(() => []);
  for (const zone of zones) {
    if (!types[zone.id]) throw new CodecException(`Unknown tile type: ...`);
    tileUsage[zone.id].push(zone);
  }
  const usedTypes = [];
  for (let i = 0; i < types.length; i++) {
    if (tileUsage[i].length > 0) {
      usedTypes.push(types[i]);
      tileUsage[i].forEach(zone => zone.id = usedTypes.length - 1);
    }
  }
  return usedTypes;
  \<close>
  \<open>tileUsage[i]\<close> holds references to the zones whose \<open>id\<close> was \<open>i\<close> when the first loop ran;
  a reference is a position in the list of zones, and the \<open>id\<close> written through it is
  returned with the zones.
\<close>

definition typeLengthOf :: "nat \<Rightarrow> nat option" where
  "typeLengthOf n = (if n = 0 then None else Some (ceilLog2 n))"

definition markUsed :: "TileType list \<Rightarrow> TileZone list \<Rightarrow> nat \<Rightarrow> TileType list \<times> TileZone list \<Rightarrow> TileType list \<times> TileZone list" where
  "markUsed tps zones0 i acc =
     (case acc of (usedTypes, zones) \<Rightarrow>
        let tileUsage = filter (\<lambda>k. tileId (zones0 ! k) = i) [0..<length zones0] in
        if length tileUsage > 0 then
          (usedTypes @ [tps ! i],
           fold (\<lambda>k zs. zs[k := (zs ! k)\<lparr>tileId := length (usedTypes @ [tps ! i]) - 1\<rparr>]) tileUsage zones)
        else (usedTypes, zones))"

definition validateTileTypeUsage :: "TileType list \<Rightarrow> TileZone list \<Rightarrow> error + TileType list \<times> TileZone list" where
  "validateTileTypeUsage tps zones =
     (case find (\<lambda>zone. \<not> tileId zone < length tps) zones of
        Some zone \<Rightarrow> Inl (UnknownTileType (tileId zone))
      | None \<Rightarrow> Inr (fold (markUsed tps zones) [0..<length tps] ([], zones)))"

definition writeTileType :: "TileType \<Rightarrow> bits \<Rightarrow> error + bits" where
  "writeTileType t wr =
     thenR (writeString 32 (name t) (writeBits 3 0 wr)) (\<lambda>wr1.
     thenR (writeString 16 (colorBase t) wr1) (\<lambda>wr2.
       Inr (writeBits 8 (expansionCost t)
             (writeBits 8 (expansionTime t)
               (writeBoolean (navigable t)
                 (writeBoolean (conquerable t)
                   (writeBits 4 (colorVariant t) wr2)))))))"

definition writeTypeMap :: "bits \<Rightarrow> TileType list \<Rightarrow> error + bits" where
  "writeTypeMap wr typeMap = foldR writeTileType typeMap (writeBits 16 (length typeMap) wr)"

section \<open>MapEncoder: line records\<close>

text \<open>
  \<^verbatim>\<open>
  private checkChunk(writer: LazyWriter, currentChunk: number, position: number): number {
    const chunkX = Math.floor((position % this.width) / 32);
    const chunkY = Math.floor(Math.floor(position / this.width) / 32);
    const chunk = chunkY * Math.ceil(this.width / 32) + chunkX;
    while (chunk !== currentChunk) { writer.writeBits(1, 1); currentChunk++; }
    writer.writeBits(1, 0);
    return currentChunk;
  }
  \<close>
  The loop does not end when \<open>chunk\<close> is below \<open>currentChunk\<close> or is \<open>NaN\<close>.
\<close>

partial_function (option) checkChunk_loop :: "int option \<Rightarrow> int \<Rightarrow> bits \<Rightarrow> (int \<times> bits) option" where
  "checkChunk_loop chunk currentChunk wr =
     (if chunk \<noteq> Some currentChunk
      then checkChunk_loop chunk (currentChunk + 1) (writeBits 1 1 wr)
      else Some (currentChunk, writeBits 1 0 wr))"

definition checkChunk :: "nat \<Rightarrow> bits \<Rightarrow> int \<Rightarrow> int option \<Rightarrow> (int \<times> bits) option" where
  "checkChunk w wr currentChunk position =
     checkChunk_loop (case position of None \<Rightarrow> None | Some p \<Rightarrow> chunkId w p) currentChunk wr"

text \<open>
  \<^verbatim>\<open>
  for (const line of lines) {
    currentChunk = this.checkChunk(writer, currentChunk, line.line[0]);
    writer.writeBits(1, 0); //reserved for future use
    writer.writeBits(8, line.line.length - 1);
    writer.writeBits(typeLength, line.id);
    writer.writeBits(10, (line.line[0] % this.width) % 32 + Math.floor(line.line[0] / this.width) % 32 * 32);
    for (let i = 1; i < line.line.length; i++) {
      const diff = line.line[i] - line.line[i - 1];
      writer.writeBits(2, diff === 1 ? 0 : diff === -1 ? 1 : diff === this.width ? 2 : 3);
    }
  }
  \<close>
  \<open>writeLine\<close> is the body of the loop. A first cell below zero (whose remainder is
  negative) and a \<open>typeLength\<close> of \<open>-Infinity\<close> are \<open>UndefinedValue\<close>.
\<close>

definition stepCode :: "nat \<Rightarrow> int \<Rightarrow> nat" where
  "stepCode w diff = (if diff = 1 then 0 else if diff = - 1 then 1 else if diff = int w then 2 else 3)"

fun writeSteps :: "nat \<Rightarrow> int \<Rightarrow> int list \<Rightarrow> bits \<Rightarrow> bits" where
  "writeSteps w prev [] wr = wr"
| "writeSteps w prev (c # cs) wr = writeSteps w c cs (writeBits 2 (stepCode w (c - prev)) wr)"

definition positionInChunk :: "nat \<Rightarrow> int \<Rightarrow> int" where
  "positionInChunk w position = (position mod int w) mod 32 + (position div int w) mod 32 * 32"

definition writeLine :: "nat \<Rightarrow> nat option \<Rightarrow> LineData \<Rightarrow> int \<times> bits \<Rightarrow> (error + int \<times> bits) option" where
  "writeLine w typeLength ln acc =
     (case acc of (currentChunk, wr) \<Rightarrow>
        (case checkChunk w wr currentChunk (first (lineCells ln)) of
           None \<Rightarrow> None
         | Some (currentChunk', wr1) \<Rightarrow>
             (case (lineCells ln, typeLength) of
                (position # rest, Some tlen) \<Rightarrow>
                  if position < 0 then Some (Inl UndefinedValue)
                  else Some (Inr (currentChunk',
                    writeSteps w position rest
                      (writeBits 10 (nat (positionInChunk w position))
                        (writeBits tlen (lineId ln)
                          (writeBits 8 (length (lineCells ln) - 1)
                            (writeBits 1 0 wr1))))))
              | _ \<Rightarrow> Some (Inl UndefinedValue))))"

definition writeLines :: "nat \<Rightarrow> bits \<Rightarrow> LineData list \<Rightarrow> nat option \<Rightarrow> (error + bits) option" where
  "writeLines w wr lines typeLength =
     thenD (foldD (writeLine w typeLength) lines (0, writeBits 32 (length lines) wr))
       (\<lambda>(currentChunk, wr'). Some (Inr wr'))"

text \<open>
  \<^verbatim>\<open>
  writer.writeBits(8, 0); //reserved for future use
  this.width = data.width;
  const zones = ZoneCalculator.buildZones(data);
  const types = this.validateTileTypeUsage(data.types, zones);
  const typeLength = Math.ceil(Math.log2(types.length));
  const lines = this.calculateLines(writer, zones, typeLength);
  writer.writeBits(1, 0); //reserved for future use
  this.writeTypeMap(writer, data.types);
  this.writeLines(writer, lines, typeLength);
  \<close>
\<close>

definition writeCompressed :: "bits \<Rightarrow> RawMapData \<Rightarrow> (error + bits) option" where
  "writeCompressed wr data =
     (case buildZones data of
        None \<Rightarrow> None
      | Some (zones, tileMap) \<Rightarrow>
          thenD (Some (validateTileTypeUsage (types data) zones)) (\<lambda>(usedTypes, zones').
          thenD (Some (calculateLines (width data) (writeBits 8 0 wr) zones' tileMap (typeLengthOf (length usedTypes))))
            (\<lambda>(lines, wr1).
          thenD (Some (writeTypeMap (writeBits 1 0 wr1) (types data))) (\<lambda>wr2.
            writeLines (width data) wr2 lines (typeLengthOf (length usedTypes))))))"

section \<open>MapDecoder (MapDecoder.ts)\<close>

fun readTypes :: "nat \<Rightarrow> bits \<Rightarrow> error + TileType list \<times> bits" where
  "readTypes 0 r = Inr ([], r)"
| "readTypes (Suc n) r =
     thenR (readBits 3 r) (\<lambda>(reserved, r1).
     thenR (readString 32 r1) (\<lambda>(nm, r2).
     thenR (readString 16 r2) (\<lambda>(cb, r3).
     thenR (readBits 4 r3) (\<lambda>(cv, r4).
     thenR (readBoolean r4) (\<lambda>(cq, r5).
     thenR (readBoolean r5) (\<lambda>(nv, r6).
     thenR (readBits 8 r6) (\<lambda>(et, r7).
     thenR (readBits 8 r7) (\<lambda>(ec, r8).
     thenR (readTypes n r8) (\<lambda>(ts, r9).
       Inr (\<lparr>name = nm, colorBase = cb, colorVariant = cv, conquerable = cq, navigable = nv,
              expansionTime = et, expansionCost = ec\<rparr> # ts, r9))))))))))"

definition readTypeMap :: "bits \<Rightarrow> error + TileType list \<times> bits" where
  "readTypeMap r = thenR (readBits 16 r) (\<lambda>(typeMapLength, r1). readTypes typeMapLength r1)"

text \<open>
  \<^verbatim>\<open>
  const lineCount = reader.readBits(32);
  let currentChunk = 0;
  for (let i = 0; i < lineCount; i++) {
    while (reader.readBoolean()) { currentChunk++; }
    reader.readBits(1); //reserved for future use
    const length = reader.readBits(8) + 1;
    const type = reader.readBits(typeLength);
    let position = reader.readBits(10);
    position = (position % 32) + (currentChunk % Math.ceil(width / 32)) * 32
      + Math.floor(position / 32) * width + Math.floor(currentChunk / Math.ceil(width / 32)) * 32 * width;
    result[position] = type;
    valueMap[position] = true;
    for (let j = 1; j < length; j++) {
      const diff = reader.readBits(2);
      position += diff === 0 ? 1 : diff === 1 ? -1 : diff === 2 ? width : -width;
      result[position] = type;
      valueMap[position] = true;
    }
  }
  \<close>
  \<open>readChunkAdvance\<close> is the \<open>while\<close> loop. The position is \<open>NaN\<close> (\<open>None\<close>) when the width is
  zero, and the two stores at a \<open>NaN\<close> index leave both arrays as they are.
\<close>

fun readChunkAdvance :: "bits \<Rightarrow> nat \<Rightarrow> error + nat \<times> bits" where
  "readChunkAdvance [] currentChunk = Inl Truncated"
| "readChunkAdvance (b # r) currentChunk =
     (if b then readChunkAdvance r (currentChunk + 1) else Inr (currentChunk, r))"

definition absolutePosition :: "nat \<Rightarrow> nat \<Rightarrow> nat \<Rightarrow> int option" where
  "absolutePosition w currentChunk position =
     (if w = 0 then None
      else Some (int (position mod 32 + (currentChunk mod ((w + 31) div 32)) * 32
                      + (position div 32) * w + (currentChunk div ((w + 31) div 32)) * 32 * w)))"

definition stepDiff :: "nat \<Rightarrow> nat \<Rightarrow> int" where
  "stepDiff w diff = (if diff = 0 then 1 else if diff = 1 then - 1 else if diff = 2 then int w else - int w)"

definition putCell :: "int option \<Rightarrow> nat \<Rightarrow> nat list \<times> int set \<Rightarrow> nat list \<times> int set" where
  "putCell position ty acc =
     (case position of
        None \<Rightarrow> acc
      | Some p \<Rightarrow> (case acc of (result, valueMap) \<Rightarrow> (u16set result p ty, insert p valueMap)))"

fun putSteps :: "nat \<Rightarrow> nat \<Rightarrow> nat \<Rightarrow> int option \<Rightarrow> bits \<Rightarrow> nat list \<times> int set
    \<Rightarrow> error + bits \<times> nat list \<times> int set" where
  "putSteps 0 w ty position r acc = Inr (r, acc)"
| "putSteps (Suc n) w ty position r acc =
     thenR (readBits 2 r) (\<lambda>(diff, r1).
       let position' = map_option (\<lambda>p. p + stepDiff w diff) position
       in putSteps n w ty position' r1 (putCell position' ty acc))"

definition readTypeId :: "nat option \<Rightarrow> bits \<Rightarrow> error + nat \<times> bits" where
  "readTypeId typeLength r = (case typeLength of None \<Rightarrow> Inl UndefinedValue | Some n \<Rightarrow> readBits n r)"

fun putLines_loop :: "nat \<Rightarrow> nat \<Rightarrow> nat option \<Rightarrow> nat \<Rightarrow> bits \<Rightarrow> nat list \<times> int set
    \<Rightarrow> error + bits \<times> nat list \<times> int set" where
  "putLines_loop 0 w typeLength currentChunk r acc = Inr (r, acc)"
| "putLines_loop (Suc n) w typeLength currentChunk r acc =
     thenR (readChunkAdvance r currentChunk) (\<lambda>(currentChunk', r1).
     thenR (readBits 1 r1) (\<lambda>(reserved, r2).
     thenR (readBits 8 r2) (\<lambda>(lengthMinus1, r3).
     thenR (readTypeId typeLength r3) (\<lambda>(ty, r4).
     thenR (readBits 10 r4) (\<lambda>(position, r5).
       let position' = absolutePosition w currentChunk' position in
       thenR (putSteps lengthMinus1 w ty position' r5 (putCell position' ty acc)) (\<lambda>(r6, acc').
         putLines_loop n w typeLength currentChunk' r6 acc'))))))"

definition putLines :: "bits \<Rightarrow> nat list \<Rightarrow> int set \<Rightarrow> nat \<Rightarrow> nat option \<Rightarrow> error + bits \<times> nat list \<times> int set" where
  "putLines r result valueMap w typeLength =
     thenR (readBits 32 r) (\<lambda>(lineCount, r1). putLines_loop lineCount w typeLength 0 r1 (result, valueMap))"

text \<open>
  \<^verbatim>\<open>
  private fillLinesLeftToRight(result: Uint16Array, valueMap: boolean[]) {
    let current = 0;
    for (let i = 0; i < result.length; i++) {
      if (valueMap[i]) { current = result[i]; }
      result[i] = current;
    }
  }
  private fillLinesTopToBottom(result: Uint16Array, valueMap: boolean[], width: number) {
    let current = 0;
    for (let i = 0; i < result.length - 1;
         i = i >= result.length - width ? (i + 1) % width : i + width) {
      if (valueMap[i]) { current = result[i]; }
      result[i] = current;
    }
  }
  \<close>
  \<open>fillCell\<close> is the body the two loops share. \<open>nextTopToBottom\<close> is the update of \<open>i\<close>, \<open>None\<close>
  for the \<open>NaN\<close> of \<open>% 0\<close>, which ends the loop. With a width of zero and two or more cells
  the second loop does not end.
\<close>

definition fillCell :: "int set \<Rightarrow> nat \<Rightarrow> nat list \<times> nat \<Rightarrow> nat list \<times> nat" where
  "fillCell valueMap i acc =
     (case acc of (result, current) \<Rightarrow>
        let current' = (if int i \<in> valueMap then result ! i else current)
        in (result[i := current'], current'))"

definition fillLinesLeftToRight :: "nat list \<Rightarrow> int set \<Rightarrow> nat list" where
  "fillLinesLeftToRight result valueMap = fst (fold (fillCell valueMap) [0..<length result] (result, 0))"

definition nextTopToBottom :: "nat \<Rightarrow> nat \<Rightarrow> nat \<Rightarrow> nat option" where
  "nextTopToBottom len w i =
     (if int i \<ge> int len - int w then (if w = 0 then None else Some ((i + 1) mod w)) else Some (i + w))"

partial_function (option) fillLinesTopToBottom_loop :: "int set \<Rightarrow> nat \<Rightarrow> nat \<Rightarrow> nat list \<times> nat \<Rightarrow> nat list option" where
  "fillLinesTopToBottom_loop valueMap w i acc =
     (if int i < int (length (fst acc)) - 1 then
        (case nextTopToBottom (length (fst acc)) w i of
           None \<Rightarrow> Some (fst (fillCell valueMap i acc))
         | Some i' \<Rightarrow> fillLinesTopToBottom_loop valueMap w i' (fillCell valueMap i acc))
      else Some (fst acc))"

definition fillLinesTopToBottom :: "nat list \<Rightarrow> int set \<Rightarrow> nat \<Rightarrow> nat list option" where
  "fillLinesTopToBottom result valueMap w = fillLinesTopToBottom_loop valueMap w 0 (result, 0)"

text \<open>
  \<^verbatim>\<open>
  reader.readBits(8); //reserved for future use
  const direction = reader.readBoolean(); //false if left-to-right, true if top-to-bottom
  reader.readBits(1); //reserved for future use
  const tileTypes = this.readTypeMap(reader);
  const typeLength = Math.ceil(Math.log2(tileTypes.length));
  const result = new Uint16Array(width * height);
  const valueMap: boolean[] = [];
  this.putLines(reader, result, valueMap, width, typeLength);
  if (direction) { this.fillLinesTopToBottom(result, valueMap, width); }
  else { this.fillLinesLeftToRight(result, valueMap); }
  return {width, height, tiles: result, types: tileTypes};
  \<close>
  \<open>readPalette\<close> is the part of \<open>readCompressed\<close> up to \<open>readTypeMap\<close>.
\<close>

definition readPalette :: "bits \<Rightarrow> error + (bool \<times> TileType list) \<times> bits" where
  "readPalette r =
     thenR (readBits 8 r) (\<lambda>(reserved, r1).
     thenR (readBoolean r1) (\<lambda>(direction, r2).
     thenR (readBits 1 r2) (\<lambda>(reserved', r3).
     thenR (readTypeMap r3) (\<lambda>(tileTypes, r4). Inr ((direction, tileTypes), r4)))))"

definition readCompressed :: "bits \<Rightarrow> nat \<Rightarrow> nat \<Rightarrow> (error + RawMapData \<times> bits) option" where
  "readCompressed r w h =
     thenD (Some (readPalette r)) (\<lambda>((direction, tileTypes), r4).
     thenD (Some (putLines r4 (replicate (w * h) 0) {} w (typeLengthOf (length tileTypes)))) (\<lambda>(r5, result, valueMap).
       (case (if direction then fillLinesTopToBottom result valueMap w
              else Some (fillLinesLeftToRight result valueMap)) of
          None \<Rightarrow> None
        | Some result' \<Rightarrow>
            Some (Inr (\<lparr>width = w, height = h, tiles = result', types = tileTypes\<rparr>, r5)))))"

section \<open>MapCodec: encodeMap and decodeMap (MapCodec.ts)\<close>

text \<open>
  \<^verbatim>\<open>
  export function encodeMap(data: RawMapData): Uint8Array {
    const writer = new LazyWriter();
    writer.writeBits(4, CURRENT_VERSION);
    writer.writeBits(16, data.width);
    writer.writeBits(16, data.height);
    mapEncoder.writeCompressed(writer, data);
    writer.writeBits(8, 0); // reserved for future use
    return writer.compress();
  }
  export function decodeMap(data: Uint8Array): RawMapData {
    const reader = new StreamReader(data);
    const version = reader.readBits(4);
    if (version > CURRENT_VERSION || version < MINIMUM_VERSION) {
      throw new Error(`Unsupported map version: ${version}`);
    }
    const width = reader.readBits(16);
    const height = reader.readBits(16);
    const result = mapDecoder.readCompressed(reader, width, height);
    reader.readBits(8); // reserved for future use
    return result;
  }
  \<close>
  \<open>CURRENT_VERSION\<close> and \<open>MINIMUM_VERSION\<close> are both \<open>0\<close>. \<open>decodeBody\<close> is \<open>decodeMap\<close> after the
  version check.
\<close>

definition encodeMap :: "RawMapData \<Rightarrow> (error + nat list) option" where
  "encodeMap data =
     thenD (writeCompressed (writeBits 16 (height data) (writeBits 16 (width data) (writeBits 4 0 []))) data)
       (\<lambda>wr. Some (Inr (compress (writeBits 8 0 wr))))"


definition decodeBody :: "bits \<Rightarrow> (error + RawMapData) option" where
  "decodeBody r1 =
     thenD (Some (readBits 16 r1)) (\<lambda>(w, r2).
     thenD (Some (readBits 16 r2)) (\<lambda>(h, r3).
     thenD (readCompressed r3 w h) (\<lambda>(result, r4).
     thenD (Some (readBits 8 r4)) (\<lambda>(reserved, r5). Some (Inr result)))))"

definition decodeMap :: "nat list \<Rightarrow> (error + RawMapData) option" where
  "decodeMap data =
     thenD (Some (readBits 4 (streamReader data))) (\<lambda>(version, r1).
       if version > 0 \<or> version < 0 then Some (Inl (UnsupportedVersion version))
       else decodeBody r1)"

section \<open>Observations used in the statements\<close>

text \<open>
  A map encoded and decoded again.
\<close>

definition roundTrip :: "RawMapData \<Rightarrow> (error + RawMapData) option" where
  "roundTrip m = thenD (encodeMap m) decodeMap"

text \<open>
  The value of the local \<open>typeLength\<close> of \<open>writeCompressed\<close> (the width of the type field that
  \<open>writeLines\<close> writes) and of the local \<open>typeLength\<close> of \<open>readCompressed\<close> (the width that
  \<open>putLines\<close> reads), the latter from the bytes of an encoded map.
\<close>

definition encoderTypeLength :: "RawMapData \<Rightarrow> (error + nat option) option" where
  "encoderTypeLength data =
     (case buildZones data of
        None \<Rightarrow> None
      | Some (zones, tileMap) \<Rightarrow>
          Some (thenR (validateTileTypeUsage (types data) zones)
                  (\<lambda>(usedTypes, zones'). Inr (typeLengthOf (length usedTypes)))))"

definition decoderTypeLength :: "nat list \<Rightarrow> error + nat option" where
  "decoderTypeLength data =
     thenR (readBits 4 (streamReader data)) (\<lambda>(version, r1).
     thenR (readBits 16 r1) (\<lambda>(w, r2).
     thenR (readBits 16 r2) (\<lambda>(h, r3).
     thenR (readPalette r3) (\<lambda>((direction, tileTypes), r4). Inr (typeLengthOf (length tileTypes))))))"

text \<open>
  The layout of one line record, with the bits \<open>reserved\<close> between the chunk-advance prefix
  and \<open>lengthMinus1\<close> as a parameter: a run of \<open>chunk - currentChunk\<close> one bits and a zero bit,
  \<open>reserved\<close>, eight bits of \<open>lengthMinus1\<close>, \<open>tlen\<close> bits of \<open>typeId\<close>, ten bits of
  \<open>positionInChunk\<close>, and two bits for each step. The specification's layout is
  \<open>lineRecord []\<close>.
\<close>

definition stepCodes :: "nat \<Rightarrow> int list \<Rightarrow> bits" where
  "stepCodes w cells = concat (map (\<lambda>(a, b). bitsOf 2 (stepCode w (b - a))) (zip cells (tl cells)))"

definition lineRecord :: "bits \<Rightarrow> nat \<Rightarrow> nat \<Rightarrow> int \<Rightarrow> int \<Rightarrow> LineData \<Rightarrow> bits" where
  "lineRecord reserved w tlen currentChunk chunk ln =
     replicate (nat (chunk - currentChunk)) True @ [False] @ reserved
       @ bitsOf 8 (length (lineCells ln) - 1)
       @ bitsOf tlen (lineId ln)
       @ bitsOf 10 (nat (positionInChunk w (hd (lineCells ln))))
       @ stepCodes w (lineCells ln)"

text \<open>
  \<open>failsOnly P r\<close>: if the call \<open>r\<close> threw, the error satisfies \<open>P\<close>; \<open>failsOnlyD\<close> is the same for
  a call that may not return. \<open>decodeError\<close> and \<open>encodeError\<close> are the errors that the
  decoder and the encoder can end with.
\<close>

definition failsOnly :: "(error \<Rightarrow> bool) \<Rightarrow> error + 'a \<Rightarrow> bool" where
  "failsOnly P r = (case r of Inl e \<Rightarrow> P e | Inr x \<Rightarrow> True)"

definition failsOnlyD :: "(error \<Rightarrow> bool) \<Rightarrow> (error + 'a) option \<Rightarrow> bool" where
  "failsOnlyD P r = (case r of None \<Rightarrow> True | Some x \<Rightarrow> failsOnly P x)"

definition decodeError :: "error \<Rightarrow> bool" where
  "decodeError e = (e = Truncated \<or> e = InvalidString \<or> e = UndefinedValue)"

definition encodeError :: "error \<Rightarrow> bool" where
  "encodeError e = ((\<exists>n. e = UnknownTileType n) \<or> e = StringTooLong \<or> e = TypeError \<or> e = UndefinedValue)"

text \<open>Two palette entries and the maps of the examples.\<close>

definition grass :: TileType where
  "grass = \<lparr>name = ''a'', colorBase = ''g'', colorVariant = 3, conquerable = True, navigable = False,
             expansionTime = 50, expansionCost = 50\<rparr>"

definition water :: TileType where
  "water = \<lparr>name = ''b'', colorBase = ''h'', colorVariant = 4, conquerable = False, navigable = True,
             expansionTime = 60, expansionCost = 70\<rparr>"

definition columnMap :: RawMapData where
  "columnMap = \<lparr>width = 1, height = 3, tiles = [0, 1, 1], types = [grass, water]\<rparr>"

definition waterMap :: RawMapData where
  "waterMap = \<lparr>width = 1, height = 1, tiles = [1], types = [grass, water]\<rparr>"

definition grassMap :: RawMapData where
  "grassMap = \<lparr>width = 1, height = 1, tiles = [0], types = [grass, water]\<rparr>"

definition shortMap :: RawMapData where
  "shortMap = \<lparr>width = 2, height = 1, tiles = [0], types = [grass]\<rparr>"

text \<open>
  What is asked of a line of a zone: \<open>fourStep\<close> holds between each cell and the next, and every
  cell carries the id of the zone in \<open>tileMap\<close>. The other predicates are what the stages of
  \<open>calculateNeededLines\<close> keep true: \<open>okEntry\<close> for an entry of the queue of \<open>calculatePaths\<close>,
  \<open>okRes\<close> for a pair that it returns, \<open>goodConn\<close> and \<open>goodBuckets\<close> for the connections,
  \<open>endAt\<close> and \<open>stitchInv\<close> for the state of the stitching loop: a point that has one connection
  so far is at one end of the segment that \<open>segmentMap\<close> gives for it.
\<close>

definition fourStep :: "nat \<Rightarrow> int \<Rightarrow> int \<Rightarrow> bool" where
  "fourStep w a b = (b - a = 1 \<or> b - a = - 1 \<or> b - a = int w \<or> b - a = - int w)"

definition inZone :: "nat list \<Rightarrow> nat \<Rightarrow> int list \<Rightarrow> bool" where
  "inZone tileMap zoneId cells = (\<forall>c \<in> set cells. aget tileMap c = Some zoneId)"

definition validLine :: "nat \<Rightarrow> nat list \<Rightarrow> nat \<Rightarrow> int list \<Rightarrow> bool" where
  "validLine w tileMap zoneId cells = (successively (fourStep w) cells \<and> inZone tileMap zoneId cells)"








text \<open>
  The zones of a map, as \<open>exploreZone\<close> walks them: \<open>adj\<close> holds between a cell and a cell that
  \<open>exploreZone\<close> pushes for it (the left or right neighbour in the same row, the cell above or
  below, of the same tile type), and \<open>pushed\<close> lists these cells in the order of the stack. The
  zone of a cell is the set of cells that \<open>conn\<close> relates to it. Its \<open>leader\<close> is its least cell,
  the first one that the scan of \<open>buildZones\<close> meets; \<open>zoneIndex\<close> counts the zones that the scan
  meets before the zone of a cell, and \<open>zoneCount\<close> counts the zones of the map.
\<close>

definition adj :: "nat list \<Rightarrow> nat \<Rightarrow> nat \<Rightarrow> nat \<Rightarrow> bool" where
  "adj tls w c d =
     (c < length tls \<and> d < length tls \<and> tls ! c = tls ! d \<and>
      ((c mod w \<noteq> 0 \<and> d + 1 = c) \<or> (c mod w \<noteq> w - 1 \<and> d = c + 1) \<or> d + w = c \<or> d = c + w))"

definition conn :: "nat list \<Rightarrow> nat \<Rightarrow> nat \<Rightarrow> nat \<Rightarrow> bool" where
  "conn tls w = (adj tls w)\<^sup>*\<^sup>*"











section \<open>Evaluating concrete calls\<close>

text \<open>
  Rules that let the simplifier run the definitions on concrete inputs: the sequencing
  operators are rewritten only once their first argument is a value, and recursion on a
  numeral takes one step at a time.
\<close>

lemma thenR_simps: "thenR (Inl e) f = Inl e" "thenR (Inr x) f = f x"
  by (simp_all add: thenR_def)

lemma thenD_simps: "thenD None g = None" "thenD (Some (Inl e)) g = Some (Inl e)" "thenD (Some (Inr x)) g = g x"
  by (simp_all add: thenD_def)

lemma thenR_cong_weak: "r = r' \<Longrightarrow> thenR r f = thenR r' f"
  by simp

lemma thenD_cong_weak: "r = r' \<Longrightarrow> thenD r f = thenD r' f"
  by simp

lemma bitsOf_numeral: "bitsOf (numeral k) v = bitsOf (pred_numeral k) (v div 2) @ [odd v]"
  by (simp add: numeral_eq_Suc)

lemma replicate_numeral: "replicate (numeral k) x = x # replicate (pred_numeral k) x"
  by (simp add: numeral_eq_Suc)

lemma list_update_numeral: "(x # xs)[numeral k := y] = x # xs[pred_numeral k := y]"
  by (simp add: numeral_eq_Suc)

lemma readChars_numeral: "readChars (numeral k) r = readChars (Suc (pred_numeral k)) r"
  by (simp add: numeral_eq_Suc)

lemma readTypes_numeral: "readTypes (numeral k) r = readTypes (Suc (pred_numeral k)) r"
  by (simp add: numeral_eq_Suc)

lemma putSteps_numeral:
  "putSteps (numeral k) w ty position r acc = putSteps (Suc (pred_numeral k)) w ty position r acc"
  by (simp add: numeral_eq_Suc)

lemma putLines_loop_numeral:
  "putLines_loop (numeral k) w tlen c r acc = putLines_loop (Suc (pred_numeral k)) w tlen c r acc"
  by (simp add: numeral_eq_Suc)

lemmas num_eval = bitsOf_numeral replicate_numeral list_update_numeral readChars_numeral
  readTypes_numeral putSteps_numeral putLines_loop_numeral

lemmas zone_eval = buildZones_def exploreZone_def exploreZone_loop.simps exploreCell_def aget_def
  u16set_def truthy_def jsrem_def

lemmas lines_eval = calculateNeededLines_def calculateConnections_def calculatePaths_def
  visitNeighbour_def addConnection_def indexOf_def addSingles_def cropLines_def cropLines_loop.simps
  stitch_def processConnection_def concatSegment_def connectSegments_def first_def lastOpt_def

lemmas enc_eval = encodeMap_def writeCompressed_def thenR_simps thenD_simps validateTileTypeUsage_def
  markUsed_def calculateLines_def zoneLines_def chunkLines_def startChunk_def chunkId_def
  calculateCost_def lineCost_def typeLengthOf_def ceilLog2.simps writeTypeMap_def writeTileType_def
  writeString_def writeBits_def writeBoolean_def writeLines_def writeLine_def checkChunk_def
  checkChunk_loop.simps stepCode_def positionInChunk_def compress_def valueOf_def

lemmas dec_eval = decodeMap_def decodeBody_def readCompressed_def readPalette_def readTypeMap_def
  readString_def readBits_def readBoolean_def thenR_simps thenD_simps valueOf_def streamReader_def
  putLines_def readTypeId_def absolutePosition_def stepDiff_def putCell_def u16set_def
  fillLinesLeftToRight_def fillLinesTopToBottom_def fillLinesTopToBottom_loop.simps fillCell_def
  nextTopToBottom_def typeLengthOf_def ceilLog2.simps char_of_def bit_Suc_0_iff

lemmas palette_eval = grass_def water_def

section \<open>Cropping (C4)\<close>

lemma cropLines_loop_bound:
  "\<forall>j < i. j < length lines \<longrightarrow> length (lines ! j) \<le> 256 \<Longrightarrow>
   l \<in> set (cropLines_loop i lines) \<Longrightarrow> length l \<le> 256"
proof (induction i lines rule: cropLines_loop.induct)
  case (1 i lines)
  show ?case
  proof (cases "i < length lines")
    case False
    with 1(3,4) show ?thesis
      by (auto simp: cropLines_loop.simps [of i lines] in_set_conv_nth)
  next
    case inb: True
    show ?thesis
    proof (cases "length (lines ! i) > 256")
      case True
      let ?ls = "lines[i := take 256 (lines ! i)] @ [drop 256 (lines ! i)]"
      have "\<forall>j < i + 1. j < length ?ls \<longrightarrow> length (?ls ! j) \<le> 256"
        using 1(3) inb by (auto simp: nth_append nth_list_update less_Suc_eq)
      moreover have "l \<in> set (cropLines_loop (i + 1) ?ls)"
        using 1(4) inb True by (simp add: cropLines_loop.simps [of i lines] Let_def)
      ultimately show ?thesis using 1(1) [OF inb refl True] by blast
    next
      case False
      have "\<forall>j < i + 1. j < length lines \<longrightarrow> length (lines ! j) \<le> 256"
        using 1(3) False by (auto simp: less_Suc_eq)
      moreover have "l \<in> set (cropLines_loop (i + 1) lines)"
        using 1(4) inb False by (simp add: cropLines_loop.simps [of i lines] Let_def)
      ultimately show ?thesis using 1(2) [OF inb refl False] by blast
    qed
  qed
qed

lemma cropLines_loop_prefix:
  "j < i \<Longrightarrow> j < length lines \<Longrightarrow>
   j < length (cropLines_loop i lines) \<and> cropLines_loop i lines ! j = lines ! j"
proof (induction i lines rule: cropLines_loop.induct)
  case (1 i lines)
  show ?case
  proof (cases "i < length lines")
    case False
    then show ?thesis using 1(3,4) by (simp add: cropLines_loop.simps [of i lines])
  next
    case inb: True
    show ?thesis
    proof (cases "length (lines ! i) > 256")
      case True
      let ?ls = "lines[i := take 256 (lines ! i)] @ [drop 256 (lines ! i)]"
      have "j < length (cropLines_loop (i + 1) ?ls) \<and> cropLines_loop (i + 1) ?ls ! j = ?ls ! j"
        using 1(1) [OF inb refl True] 1(3,4) by simp
      then show ?thesis
        using inb True 1(3,4) by (simp add: cropLines_loop.simps [of i lines] Let_def nth_append)
    next
      case False
      have "j < length (cropLines_loop (i + 1) lines) \<and> cropLines_loop (i + 1) lines ! j = lines ! j"
        using 1(2) [OF inb refl False] 1(3,4) by simp
      then show ?thesis
        using inb False by (simp add: cropLines_loop.simps [of i lines] Let_def)
    qed
  qed
qed

lemma cropLines_loop_at:
  "i \<le> j \<Longrightarrow> j < length lines \<Longrightarrow>
   j < length (cropLines_loop i lines) \<and> cropLines_loop i lines ! j = take 256 (lines ! j)"
proof (induction i lines rule: cropLines_loop.induct)
  case (1 i lines)
  from 1(3,4) have inb: "i < length lines" by simp
  let ?ls = "lines[i := take 256 (lines ! i)] @ [drop 256 (lines ! i)]"
  show ?case
  proof (cases "length (lines ! i) > 256")
    case long: True
    have step: "cropLines_loop i lines = cropLines_loop (i + 1) ?ls"
      using inb long by (simp add: cropLines_loop.simps [of i lines] Let_def)
    show ?thesis
    proof (cases "i = j")
      case True
      have "i < length (cropLines_loop (i + 1) ?ls) \<and> cropLines_loop (i + 1) ?ls ! i = ?ls ! i"
        using cropLines_loop_prefix [of i "i + 1" ?ls] inb by simp
      then show ?thesis
        unfolding step using inb True by (simp add: nth_append)
    next
      case False
      with 1(3) have lt: "i + 1 \<le> j" by simp
      have "j < length (cropLines_loop (i + 1) ?ls) \<and> cropLines_loop (i + 1) ?ls ! j = take 256 (?ls ! j)"
        using 1(1) [OF inb refl long lt] 1(4) by simp
      then show ?thesis
        unfolding step using False 1(4) by (simp add: nth_append)
    qed
  next
    case short: False
    have step: "cropLines_loop i lines = cropLines_loop (i + 1) lines"
      using inb short by (simp add: cropLines_loop.simps [of i lines] Let_def)
    show ?thesis
    proof (cases "i = j")
      case True
      have "i < length (cropLines_loop (i + 1) lines) \<and> cropLines_loop (i + 1) lines ! i = lines ! i"
        using cropLines_loop_prefix [of i "i + 1" lines] inb by simp
      then show ?thesis
        unfolding step using short True by simp
    next
      case False
      with 1(3) have lt: "i + 1 \<le> j" by simp
      show ?thesis
        unfolding step using 1(2) [OF inb refl short lt] 1(4) by simp
    qed
  qed
qed

lemma cropLines_loop_mset:
  "mset (concat (cropLines_loop i lines)) = mset (concat lines)"
proof (induction i lines rule: cropLines_loop.induct)
  case (1 i lines)
  show ?case
  proof (cases "i < length lines")
    case False
    then show ?thesis by (simp add: cropLines_loop.simps [of i lines])
  next
    case inb: True
    show ?thesis
    proof (cases "length (lines ! i) > 256")
      case True
      let ?l = "lines ! i"
      have split: "lines = take i lines @ ?l # drop (Suc i) lines"
        using inb by (simp add: id_take_nth_drop [symmetric])
      have upd: "lines[i := take 256 ?l] = take i lines @ take 256 ?l # drop (Suc i) lines"
        using inb by (simp add: upd_conv_take_nth_drop)
      have "mset (concat (lines[i := take 256 ?l] @ [drop 256 ?l])) =
            mset (concat (take i lines)) + mset (take 256 ?l) + mset (concat (drop (Suc i) lines)) + mset (drop 256 ?l)"
        by (simp add: upd)
      also have "\<dots> = mset (concat (take i lines)) + mset ?l + mset (concat (drop (Suc i) lines))"
        using append_take_drop_id [of 256 ?l] mset_append [of "take 256 ?l" "drop 256 ?l"]
        by (simp del: append_take_drop_id)
      also have "\<dots> = mset (concat lines)"
        by (subst (4) split) simp
      finally show ?thesis
        using 1(1) [OF inb refl True] inb True by (simp add: cropLines_loop.simps [of i lines] Let_def)
    next
      case False
      then show ?thesis
        using 1(2) [OF inb refl False] inb by (simp add: cropLines_loop.simps [of i lines] Let_def)
    qed
  qed
qed

text \<open>
  C4, as the code has it. A segment of more than 256 cells is replaced in place by its first
  256 cells and the rest is pushed as a new segment at the end of the list; since the loop
  runs up to the current length of the list, the pushed rest is cropped by the same rule
  when the loop reaches it. On return every segment has at most 256 cells, the segment at an
  original position holds the first 256 cells of the original, and the cells are the same
  as before, with multiplicity.
\<close>

theorem cropLines_recrops:
  "(\<forall>l \<in> set (cropLines lines). length l \<le> 256) \<and>
   (\<forall>i < length lines. i < length (cropLines lines) \<and> cropLines lines ! i = take 256 (lines ! i)) \<and>
   mset (concat (cropLines lines)) = mset (concat lines)"
  using cropLines_loop_bound [of 0 lines] cropLines_loop_at [of 0 _ lines] cropLines_loop_mset [of 0 lines]
  by (simp add: cropLines_def)

text \<open>
  C4 as the specification states it fails: a segment of 600 cells leaves three segments of
  256, 256 and 88 cells, none longer than 256.
\<close>

theorem cropLines_600_counterexample:
  "cropLines [map int [0..<600]] = [map int [0..<256], map int [256..<512], map int [512..<600]] \<and>
   map length (cropLines [map int [0..<600]]) = [256, 256, 88]"
  by (simp add: cropLines_def cropLines_loop.simps drop_map take_map)

theorem cropLines_recrops_witness:
  "map int [512..<600] \<in> set (cropLines [map int [0..<600]]) \<and>
   length (map int [512..<600]) \<le> 256 \<and>
   (0::nat) < length [map int [0..<600]] \<and>
   cropLines [map int [0..<600]] ! 0 = take 256 ([map int [0..<600]] ! 0) \<and>
   mset (concat (cropLines [map int [0..<600]])) = mset (concat [map int [0..<600]])"
proof -
  have ev: "cropLines [map int [0..<600]] = [map int [0..<256], map int [256..<512], map int [512..<600]]"
    by (simp add: cropLines_def cropLines_loop.simps drop_map take_map)
  have "map int [512..<600] \<in> set (cropLines [map int [0..<600]])"
    unfolding ev by simp
  then show ?thesis
    using cropLines_recrops [of "[map int [0..<600]]"] by simp
qed

section \<open>Chunk order (C5)\<close>

lemma takeWhile_neq_index:
  "x \<in> set xs \<Longrightarrow>
   length (takeWhile (\<lambda>y. y \<noteq> x) xs) < length xs \<and> xs ! length (takeWhile (\<lambda>y. y \<noteq> x) xs) = x"
  by (induction xs) auto

lemma indexOf_nth:
  "x \<in> set xs \<Longrightarrow> 0 \<le> indexOf xs x \<and> nat (indexOf xs x) < length xs \<and> xs ! nat (indexOf xs x) = x"
  using takeWhile_neq_index [of x xs] by (simp add: indexOf_def)

lemma those_map_Some:
  "\<forall>x \<in> set xs. f x \<noteq> None \<Longrightarrow> those (map f xs) = Some (map (\<lambda>x. the (f x)) xs)"
  by (induction xs) auto

lemma those_map_None:
  "\<exists>x \<in> set xs. f x = None \<Longrightarrow> those (map f xs) = None"
  by (induction xs) (auto split: option.splits)

lemma sort_key_cong_on:
  "\<forall>x \<in> set xs. f x = g x \<Longrightarrow> sort_key f xs = sort_key g xs"
proof (induction xs)
  case Nil then show ?case by simp
next
  case (Cons a xs)
  have ins: "\<And>ys. set ys \<subseteq> set xs \<Longrightarrow> insort_key f a ys = insort_key g a ys"
  proof -
    fix ys show "set ys \<subseteq> set xs \<Longrightarrow> insort_key f a ys = insort_key g a ys"
      using Cons.prems by (induction ys) auto
  qed
  have "sort_key f xs = sort_key g xs" using Cons by simp
  moreover have "set (sort_key g xs) \<subseteq> set xs" by simp
  ultimately show ?case using ins by simp
qed

lemma startChunk_defined:
  "0 < w \<Longrightarrow> lineCells ln \<noteq> [] \<Longrightarrow> \<exists>k. startChunk w ln = Some k"
  by (auto simp: startChunk_def chunkId_def jsrem_def split: list.splits)

lemma those_map_the:
  "those (map f xs) = Some ys \<Longrightarrow> ys = map (\<lambda>x. the (f x)) xs \<and> (\<forall>x \<in> set xs. f x = Some (the (f x)))"
  by (induction xs arbitrary: ys) (auto split: option.splits)

lemma chunkLines_sort:
  assumes "0 < w" and "\<forall>ln \<in> set lines. lineCells ln \<noteq> []"
  shows "chunkLines w lines = Inr (sort_key (\<lambda>ln. the (startChunk w ln)) lines)"
proof -
  have def: "\<forall>ln \<in> set lines. startChunk w ln \<noteq> None"
    using assms startChunk_defined by fastforce
  have th: "those (map (startChunk w) lines) = Some (map (\<lambda>ln. the (startChunk w ln)) lines)"
    using those_map_Some [OF def] .
  have key: "\<forall>a \<in> set lines. map (\<lambda>ln. the (startChunk w ln)) lines ! nat (indexOf lines a) = the (startChunk w a)"
    using indexOf_nth by fastforce
  show ?thesis
    unfolding chunkLines_def th using sort_key_cong_on [OF key] by simp
qed

lemma startChunk_formula:
  "0 < w \<Longrightarrow> lineCells ln = p # rest \<Longrightarrow> 0 \<le> p \<Longrightarrow>
   startChunk w ln = Some ((p div int w) div 32 * int ((w + 31) div 32) + (p mod int w) div 32)"
  by (simp add: startChunk_def chunkId_def jsrem_def)

text \<open>
  C5. For a map of positive width and a list of lines none of which is empty (as the lists
  that \<open>calculateLines\<close> passes are), \<open>chunkLines\<close> returns the lines stably sorted by the
  chunk of their first cell: the chunks of the result are nondecreasing, the lines of any
  one chunk are in the order they had before, and the lines are the same as before, with
  multiplicity. The chunk of a first cell \<open>p \<ge> 0\<close> is
  \<open>floor(y / 32) * ceil(width / 32) + floor(x / 32)\<close> with \<open>x = p mod width\<close>, \<open>y = p div width\<close>.
\<close>

theorem chunkLines_stable_sort:
  assumes "0 < w" and "\<forall>ln \<in> set lines. lineCells ln \<noteq> []"
  shows "\<exists>sorted_lines chunks. chunkLines w lines = Inr sorted_lines \<and>
           those (map (startChunk w) sorted_lines) = Some chunks \<and> sorted chunks \<and>
           (\<forall>k. filter (\<lambda>ln. startChunk w ln = Some k) sorted_lines =
                 filter (\<lambda>ln. startChunk w ln = Some k) lines) \<and>
           mset sorted_lines = mset lines \<and>
           (\<forall>ln \<in> set lines. \<forall>p rest. lineCells ln = p # rest \<longrightarrow> 0 \<le> p \<longrightarrow>
              startChunk w ln = Some ((p div int w) div 32 * int ((w + 31) div 32) + (p mod int w) div 32))"
proof -
  let ?key = "\<lambda>ln. the (startChunk w ln)"
  let ?s = "sort_key ?key lines"
  have def: "\<forall>ln \<in> set lines. startChunk w ln \<noteq> None"
    using assms startChunk_defined by fastforce
  then have def': "\<forall>ln \<in> set ?s. startChunk w ln \<noteq> None" by simp
  have some: "\<And>ln k. ln \<in> set lines \<Longrightarrow> (startChunk w ln = Some k) = (?key ln = k)"
    using def by auto
  have f1: "\<And>k. filter (\<lambda>ln. startChunk w ln = Some k) ?s = filter (\<lambda>ln. ?key ln = k) ?s"
    by (rule filter_cong) (auto simp: some)
  have f2: "\<And>k. filter (\<lambda>ln. startChunk w ln = Some k) lines = filter (\<lambda>ln. ?key ln = k) lines"
    by (rule filter_cong) (auto simp: some)
  have "those (map (startChunk w) ?s) = Some (map ?key ?s)"
    using those_map_Some [OF def'] .
  moreover have "sorted (map ?key ?s)" by (rule sorted_sort_key)
  moreover have "\<forall>k. filter (\<lambda>ln. startChunk w ln = Some k) ?s = filter (\<lambda>ln. startChunk w ln = Some k) lines"
    unfolding f1 f2 by (simp add: sort_key_stable)
  moreover have "\<forall>ln \<in> set lines. \<forall>p rest. lineCells ln = p # rest \<longrightarrow> 0 \<le> p \<longrightarrow>
              startChunk w ln = Some ((p div int w) div 32 * int ((w + 31) div 32) + (p mod int w) div 32)"
    using startChunk_formula [OF assms(1)] by blast
  ultimately show ?thesis
    unfolding chunkLines_sort [OF assms] by simp
qed

theorem chunkLines_stable_sort_witness:
  "(0::nat) < 64 \<and>
   lineCells \<lparr>lineId = 0, lineCells = [40]\<rparr> \<noteq> [] \<and>
   lineCells \<lparr>lineId = 3, lineCells = [3]\<rparr> \<noteq> [] \<and>
   lineCells \<lparr>lineId = 2, lineCells = [35]\<rparr> \<noteq> [] \<and>
   chunkLines 64 [\<lparr>lineId = 0, lineCells = [40]\<rparr>, \<lparr>lineId = 3, lineCells = [3]\<rparr>, \<lparr>lineId = 2, lineCells = [35]\<rparr>]
     = Inr [\<lparr>lineId = 3, lineCells = [3]\<rparr>, \<lparr>lineId = 0, lineCells = [40]\<rparr>, \<lparr>lineId = 2, lineCells = [35]\<rparr>] \<and>
   those (map (startChunk 64)
     [\<lparr>lineId = 3, lineCells = [3]\<rparr>, \<lparr>lineId = 0, lineCells = [40]\<rparr>, \<lparr>lineId = 2, lineCells = [35]\<rparr>])
     = Some [0, 1, 1]"
proof -
  let ?ls = "[\<lparr>lineId = 0, lineCells = [40]\<rparr>, \<lparr>lineId = 3, lineCells = [3]\<rparr>, \<lparr>lineId = 2, lineCells = [35]\<rparr>]"
  have pre: "\<forall>ln \<in> set ?ls. lineCells ln \<noteq> []" by simp
  have ch: "startChunk 64 \<lparr>lineId = 0, lineCells = [40]\<rparr> = Some 1"
    "startChunk 64 \<lparr>lineId = 3, lineCells = [3]\<rparr> = Some 0"
    "startChunk 64 \<lparr>lineId = 2, lineCells = [35]\<rparr> = Some 1"
    by (simp_all add: startChunk_def chunkId_def jsrem_def)
  have "chunkLines 64 ?ls = Inr [\<lparr>lineId = 3, lineCells = [3]\<rparr>, \<lparr>lineId = 0, lineCells = [40]\<rparr>, \<lparr>lineId = 2, lineCells = [35]\<rparr>]"
    by (simp add: chunkLines_def ch indexOf_def)
  then show ?thesis
    using chunkLines_stable_sort [of 64 ?ls, OF _ pre] by (simp add: ch)
qed

section \<open>Top-to-bottom fill (C9)\<close>

text \<open>
  The order of a grid of \<open>w\<close> columns and \<open>h\<close> rows by columns: the \<open>k\<close>-th cell is in
  column \<open>k div h\<close> and row \<open>k mod h\<close>, at index \<open>k div h + (k mod h) * w\<close>.
\<close>

definition columnMajor :: "nat \<Rightarrow> nat \<Rightarrow> nat \<Rightarrow> nat" where
  "columnMajor w h k = k div h + (k mod h) * w"

lemma fillCell_length [simp]: "length (fst (fillCell valueMap i acc)) = length (fst acc)"
  by (cases acc) (simp add: fillCell_def Let_def)

lemma fold_fillCell_length [simp]: "length (fst (fold (fillCell valueMap) cells acc)) = length (fst acc)"
  by (induction cells arbitrary: acc) simp_all

lemma fillCell_other: "i \<noteq> j \<Longrightarrow> fst (fillCell valueMap i acc) ! j = fst acc ! j"
  by (cases acc) (simp add: fillCell_def Let_def)

lemma fold_fillCell_other:
  "j \<notin> set cells \<Longrightarrow> fst (fold (fillCell valueMap) cells acc) ! j = fst acc ! j"
  by (induction cells arbitrary: acc) (auto simp: fillCell_other)

lemma columnMajor_less:
  assumes "k < w * h"
  shows "columnMajor w h k < w * h"
proof -
  have h: "0 < h" using assms by (cases h) auto
  have q: "k div h < w" using assms h by (simp add: less_mult_imp_div_less mult.commute)
  have r: "k mod h < h" using h by simp
  have "(k mod h) * w \<le> (h - 1) * w" using r by (intro mult_le_mono1) simp
  then have "k div h + (k mod h) * w < w + (h - 1) * w" using q by linarith
  also have "\<dots> = w * h" using h by (cases h) (simp_all add: mult.commute)
  finally show ?thesis by (simp add: columnMajor_def)
qed

lemma columnMajor_last:
  assumes "k < w * h" and "columnMajor w h k = w * h - 1"
  shows "k = w * h - 1"
proof -
  have h: "0 < h" using assms by (cases h) auto
  have q: "k div h < w" using assms h by (simp add: less_mult_imp_div_less mult.commute)
  have r: "k mod h < h" using h by simp
  have n: "w * h = w + (h - 1) * w" using h by (cases h) (simp_all add: mult.commute)
  have rr: "k mod h = h - 1"
  proof (rule ccontr)
    assume "k mod h \<noteq> h - 1"
    then have "k mod h + 1 \<le> h - 1" using r by simp
    then have "(k mod h + 1) * w \<le> (h - 1) * w" by (intro mult_le_mono1)
    then have "(k mod h) * w + w \<le> (h - 1) * w" by (simp add: add_mult_distrib)
    then show False using assms(2) q n by (simp add: columnMajor_def)
  qed
  then have "k div h = w - 1" using assms(2) n q by (simp add: columnMajor_def)
  then have "k = (w - 1) * h + (h - 1)"
    using rr div_mult_mod_eq [of k h] by simp
  also have "\<dots> = w * h - 1" using h q by (cases w) (simp_all add: mult.commute)
  finally show ?thesis .
qed

lemma columnMajor_final:
  assumes "0 < w * h"
  shows "columnMajor w h (w * h - 1) = w * h - 1"
proof -
  obtain q where q: "w = Suc q" using assms by (cases w) auto
  obtain r where r: "h = Suc r" using assms by (cases h) auto
  have n: "w * h - 1 = q * Suc r + r" by (simp add: q r)
  have d: "(q * Suc r + r) div Suc r = q"
    using div_mult_self3 [of "Suc r" q r] by (simp del: mult_Suc_right)
  have m: "(q * Suc r + r) mod Suc r = r"
    using mod_mult_self3 [of q "Suc r" r] by (simp del: mult_Suc_right)
  show ?thesis
    unfolding columnMajor_def n unfolding r d m by (simp add: q)
qed

lemma nextTopToBottom_columnMajor:
  assumes "Suc k < w * h"
  shows "nextTopToBottom (w * h) w (columnMajor w h k) = Some (columnMajor w h (Suc k))"
proof -
  have h: "0 < h" using assms by (cases h) auto
  have w: "0 < w" using assms by (cases w) auto
  have q: "k div h < w" using assms h by (simp add: less_mult_imp_div_less mult.commute)
  have r: "k mod h < h" using h by simp
  have n: "w * h = w + (h - 1) * w" using h by (cases h) (simp_all add: mult.commute)
  show ?thesis
  proof (cases "k mod h = h - 1")
    case True
    have sr: "Suc (k mod h) = h" using True h by simp
    have sk: "Suc k mod h = 0" using sr by (simp add: mod_Suc)
    have skd: "Suc k div h = Suc (k div h)" using sk by (simp add: div_Suc)
    have "Suc k div h < w" using assms h by (simp add: less_mult_imp_div_less mult.commute)
    then have q1: "Suc (k div h) < w" using skd by simp
    have ge: "int (columnMajor w h k) \<ge> int (w * h) - int w"
      using True n by (simp add: columnMajor_def)
    have "(columnMajor w h k + 1) mod w = Suc (k div h) mod w"
      using True by (simp add: columnMajor_def)
    also have "\<dots> = Suc (k div h)" using q1 by simp
    finally show ?thesis
      using ge w sk skd by (simp add: nextTopToBottom_def columnMajor_def)
  next
    case False
    then have lt: "k mod h + 1 \<le> h - 1" using r by simp
    have sr: "Suc (k mod h) \<noteq> h" using False by auto
    have sk: "Suc k mod h = Suc (k mod h)" using sr by (simp add: mod_Suc)
    have skd: "Suc k div h = k div h" using sk by (simp add: div_Suc)
    have "(k mod h + 1) * w \<le> (h - 1) * w" using lt by (intro mult_le_mono1)
    then have "(k mod h) * w + w \<le> (h - 1) * w" by (simp add: add_mult_distrib)
    then have "columnMajor w h k + w < w * h" using q n by (simp add: columnMajor_def)
    then have "\<not> int (columnMajor w h k) \<ge> int (w * h) - int w" by linarith
    then show ?thesis
      using sk skd by (simp add: nextTopToBottom_def columnMajor_def)
  qed
qed

lemma fillLinesTopToBottom_loop_fold:
  assumes "length (fst acc) = w * h" and "k < w * h"
  shows "fillLinesTopToBottom_loop valueMap w (columnMajor w h k) acc =
         Some (fst (fold (fillCell valueMap) (map (columnMajor w h) [k..<w * h - 1]) acc))"
  using assms
proof (induction "w * h - 1 - k" arbitrary: k acc)
  case 0
  then have k: "k = w * h - 1" by simp
  have "columnMajor w h k = w * h - 1"
    unfolding k using 0(3) by (intro columnMajor_final) (rule le_less_trans [OF le0])
  then have stop: "\<not> int (columnMajor w h k) < int (length (fst acc)) - 1"
    using 0(2) by linarith
  show ?case
    unfolding k by (subst fillLinesTopToBottom_loop.simps) (use stop k in simp)
next
  case (Suc d)
  then have k: "Suc k < w * h" by simp
  have cm: "columnMajor w h k < w * h - 1"
    using columnMajor_less [of k w h] columnMajor_last [of k w h] k by (cases "columnMajor w h k = w * h - 1") auto
  let ?acc = "fillCell valueMap (columnMajor w h k) acc"
  have IH: "fillLinesTopToBottom_loop valueMap w (columnMajor w h (Suc k)) ?acc =
         Some (fst (fold (fillCell valueMap) (map (columnMajor w h) [Suc k..<w * h - 1]) ?acc))"
    using Suc(1) [of "Suc k" ?acc] Suc(2,3) k by simp
  have upt: "[k..<w * h - 1] = k # [Suc k..<w * h - 1]"
    using k by (simp add: upt_conv_Cons)
  have "fillLinesTopToBottom_loop valueMap w (columnMajor w h k) acc =
        fillLinesTopToBottom_loop valueMap w (columnMajor w h (Suc k)) ?acc"
  proof -
    have go: "int (columnMajor w h k) < int (length (fst acc)) - 1"
      using cm Suc(3) by linarith
    have nx: "nextTopToBottom (length (fst acc)) w (columnMajor w h k) = Some (columnMajor w h (Suc k))"
      using nextTopToBottom_columnMajor [OF k] Suc(3) by simp
    show ?thesis
      by (subst fillLinesTopToBottom_loop.simps) (simp only: go nx if_True option.case)
  qed
  then show ?case using IH upt by simp
qed


text \<open>
  C9. On a grid of \<open>w * h\<close> cells \<open>fillLinesTopToBottom\<close> returns, and what it returns is the
  body of the loop (if the cell is an anchor, \<open>current\<close> becomes its value; the cell becomes
  \<open>current\<close>) run over the cells in column order, on all of them but the last one of that
  order: \<open>w * h - 1\<close> cells, none of them the cell \<open>w * h - 1\<close>, which keeps the value it had.
\<close>

theorem fillLinesTopToBottom_column_major:
  assumes "length result = w * h"
  shows "\<exists>filled. fillLinesTopToBottom result valueMap w = Some filled \<and>
           filled = fst (fold (fillCell valueMap) (map (columnMajor w h) [0..<w * h - 1]) (result, 0)) \<and>
           length (map (columnMajor w h) [0..<w * h - 1]) = w * h - 1 \<and>
           w * h - 1 \<notin> set (map (columnMajor w h) [0..<w * h - 1]) \<and>
           length filled = w * h \<and>
           (0 < w * h \<longrightarrow> filled ! (w * h - 1) = result ! (w * h - 1))"
proof (cases "w * h = 0")
  case True
  have e1: "[0..<w * h - 1] = []" unfolding True by simp
  have e2: "length result = 0" using assms unfolding True by simp
  have "fillLinesTopToBottom_loop valueMap w 0 (result, 0) = Some result"
    by (subst fillLinesTopToBottom_loop.simps) (simp add: e2)
  then show ?thesis
    unfolding fillLinesTopToBottom_def e1 using True e2 by auto
next
  case False
  then have pos: "0 < w * h" by simp
  have c0: "columnMajor w h 0 = 0" by (simp add: columnMajor_def)
  have notin: "w * h - 1 \<notin> set (map (columnMajor w h) [0..<w * h - 1])"
  proof
    assume "w * h - 1 \<in> set (map (columnMajor w h) [0..<w * h - 1])"
    then obtain k where k: "k < w * h - 1" "columnMajor w h k = w * h - 1" by auto
    then have "k < w * h" by linarith
    then have "k = w * h - 1" using k(2) by (rule columnMajor_last)
    then show False using k(1) by simp
  qed
  have "fillLinesTopToBottom_loop valueMap w (columnMajor w h 0) (result, 0) =
        Some (fst (fold (fillCell valueMap) (map (columnMajor w h) [0..<w * h - 1]) (result, 0)))"
    using assms pos by (intro fillLinesTopToBottom_loop_fold) simp_all
  then show ?thesis
    using notin assms by (simp add: fillLinesTopToBottom_def c0 fold_fillCell_other del: set_map map_map)
qed

theorem fillLinesTopToBottom_column_major_witness:
  "length [5, 0, 7, 9 :: nat] = 2 * 2 \<and>
   fillLinesTopToBottom [5, 0, 7, 9] {0, 2, 3} 2 = Some [5, 7, 7, 9] \<and>
   map (columnMajor 2 2) [0..<2 * 2 - 1] = [0, 2, 1] \<and>
   (0::nat) < 2 * 2 \<and> [5, 7, 7, 9 :: nat] ! (2 * 2 - 1) = [5, 0, 7, 9] ! (2 * 2 - 1)"
proof -
  have len: "length [5, 0, 7, 9 :: nat] = 2 * 2" by simp
  have order: "map (columnMajor 2 2) [0..<2 * 2 - 1] = [0, 2, 1]"
    by (simp add: columnMajor_def upt_rec)
  have "fst (fold (fillCell {0, 2, 3}) [0, 2, 1] ([5, 0, 7, 9], 0)) = [5, 7, 7, 9]"
    by (simp add: fillCell_def)
  then show ?thesis
    using fillLinesTopToBottom_column_major [OF len, of "{0, 2, 3}"] order by simp
qed

section \<open>Line records (C3)\<close>

lemma writeSteps_stepCodes: "writeSteps w prev cs wr = wr @ stepCodes w (prev # cs)"
  by (induction cs arbitrary: prev wr) (simp_all add: stepCodes_def writeBits_def)

lemma checkChunk_loop_advance:
  "currentChunk \<le> chunk \<Longrightarrow>
   checkChunk_loop (Some chunk) currentChunk wr =
     Some (chunk, wr @ replicate (nat (chunk - currentChunk)) True @ [False])"
proof (induction "nat (chunk - currentChunk)" arbitrary: currentChunk wr)
  case 0
  then have "currentChunk = chunk" by simp
  then show ?case
    by (subst checkChunk_loop.simps) (simp add: writeBits_def)
next
  case (Suc n)
  then have lt: "currentChunk < chunk" and n: "n = nat (chunk - (currentChunk + 1))" by simp_all
  have rep: "replicate (nat (chunk - currentChunk)) True = True # replicate (nat (chunk - (currentChunk + 1))) True"
    using Suc(2) n by (metis replicate_Suc)
  have "checkChunk_loop (Some chunk) currentChunk wr =
        checkChunk_loop (Some chunk) (currentChunk + 1) (writeBits 1 1 wr)"
    using lt by (subst checkChunk_loop.simps) simp
  also have "\<dots> = Some (chunk, writeBits 1 1 wr @ replicate (nat (chunk - (currentChunk + 1))) True @ [False])"
    using Suc(1) [OF n] lt by simp
  finally show ?case by (simp add: rep writeBits_def)
qed

lemma valueOf_snoc: "valueOf (bs @ [b]) = 2 * valueOf bs + (if b then 1 else 0)"
  by (simp add: valueOf_def)

lemma length_bitsOf [simp]: "length (bitsOf n v) = n"
  by (induction n arbitrary: v) simp_all

lemma valueOf_bitsOf: "valueOf (bitsOf n v) = v mod 2 ^ n"
proof (induction n arbitrary: v)
  case 0 then show ?case by (simp add: valueOf_def)
next
  case (Suc n)
  have "valueOf (bitsOf (Suc n) v) = 2 * ((v div 2) mod 2 ^ n) + v mod 2"
    using Suc [of "v div 2"]
    by (cases "odd v") (simp_all add: valueOf_snoc odd_iff_mod_2_eq_one)
  also have "\<dots> = v mod 2 ^ Suc n"
    by (simp add: mod_mult2_eq)
  finally show ?case .
qed

lemma readBits_bitsOf: "readBits n (bitsOf n v @ r) = Inr (v mod 2 ^ n, r)"
  by (simp add: readBits_def valueOf_bitsOf)

lemma readChunkAdvance_prefix:
  "readChunkAdvance (replicate k True @ False # r) c = Inr (c + k, r)"
  by (induction k arbitrary: c) simp_all

lemma putSteps_stepCodes:
  "\<exists>acc'. putSteps (length cs) w ty position (stepCodes w (prev # cs) @ r) acc = Inr (r, acc')"
proof (induction cs arbitrary: prev position acc)
  case Nil then show ?case by (simp add: stepCodes_def)
next
  case (Cons c cs)
  have sc: "stepCodes w (prev # c # cs) = bitsOf 2 (stepCode w (c - prev)) @ stepCodes w (c # cs)"
    by (simp add: stepCodes_def)
  show ?case
    unfolding sc using Cons [where prev = c] by (simp add: readBits_bitsOf thenR_def Let_def)
qed

text \<open>
  C3, as the code has it. For a line whose first cell is not negative and whose chunk is not
  below the current chunk, \<open>writeLine\<close> appends exactly the record with one reserved zero
  bit between the chunk-advance prefix and \<open>lengthMinus1\<close>, and returns the line's chunk as
  the current chunk; and one round of the loop of \<open>putLines\<close> reads exactly that record,
  leaving what follows it, when the line has at most 256 cells.
\<close>

theorem writeLine_record:
  assumes "0 < w" and "lineCells ln = p # rest" and "0 \<le> p"
    and "startChunk w ln = Some chunk" and "currentChunk \<le> chunk"
  shows "writeLine w (Some tlen) ln (currentChunk, wr) =
           Some (Inr (chunk, wr @ lineRecord [False] w tlen currentChunk chunk ln)) \<and>
         (0 \<le> currentChunk \<and> length (lineCells ln) \<le> 256 \<longrightarrow>
            (\<exists>acc'. putLines_loop 1 w (Some tlen) (nat currentChunk)
                       (lineRecord [False] w tlen currentChunk chunk ln @ r) acc = Inr (r, acc')))"
proof -
  have ch: "checkChunk w wr currentChunk (first (lineCells ln)) =
            Some (chunk, wr @ replicate (nat (chunk - currentChunk)) True @ [False])"
    using assms(2,4,5) checkChunk_loop_advance [of currentChunk chunk wr]
    by (simp add: checkChunk_def first_def startChunk_def)
  have enc: "writeLine w (Some tlen) ln (currentChunk, wr) =
           Some (Inr (chunk, wr @ lineRecord [False] w tlen currentChunk chunk ln))"
    using assms(2,3) ch by (simp add: writeLine_def lineRecord_def writeSteps_stepCodes writeBits_def)
  have dec: "\<exists>acc'. putLines_loop 1 w (Some tlen) (nat currentChunk)
                       (lineRecord [False] w tlen currentChunk chunk ln @ r) acc = Inr (r, acc')"
    if cur: "0 \<le> currentChunk" and len: "length (lineCells ln) \<le> 256"
  proof -
    have l8: "length rest mod 256 = length rest" using len assms(2) by simp
    have b1: "readBits (Suc 0) (False # bs) = Inr (0, bs)" for bs
      by (simp add: readBits_def valueOf_def)
    obtain acc' where st: "putSteps (length rest) w (lineId ln mod 2 ^ tlen)
         (absolutePosition w (nat currentChunk + nat (chunk - currentChunk)) (nat (positionInChunk w p) mod 2 ^ 10))
         (stepCodes w (p # rest) @ r)
         (putCell (absolutePosition w (nat currentChunk + nat (chunk - currentChunk)) (nat (positionInChunk w p) mod 2 ^ 10))
            (lineId ln mod 2 ^ tlen) acc) = Inr (r, acc')"
      using putSteps_stepCodes by blast
    show ?thesis
      using st
      by (simp add: lineRecord_def assms(2) readChunkAdvance_prefix thenR_def b1 readBits_bitsOf l8
          readTypeId_def Let_def)
  qed
  show ?thesis using enc dec by blast
qed

text \<open>
  C3 as the specification states it fails: for the line \<open>[40, 41, 105]\<close> of type 1 on a map
  of width 64 the code writes 26 bits, with a zero bit after the prefix \<open>10\<close>; the layout
  without a reserved bit has 25.
\<close>

theorem writeLine_reserved_bit_counterexample:
  "writeLine 64 (Some 1) \<lparr>lineId = 1, lineCells = [40, 41, 105]\<rparr> (0, []) =
     Some (Inr (1, [True, False, False, False, False, False, False, False, False, True, False,
                    True, False, False, False, False, False, False, True, False, False, False,
                    False, False, True, False])) \<and>
   lineRecord [] 64 1 0 1 \<lparr>lineId = 1, lineCells = [40, 41, 105]\<rparr> =
     [True, False, False, False, False, False, False, False, True, False, True,
      False, False, False, False, False, False, True, False, False, False,
      False, False, True, False]"
  by (simp add: enc_eval num_eval jsrem_def first_def lineRecord_def stepCodes_def cong: thenR_cong_weak thenD_cong_weak prod.case_cong_weak split del: if_split)

theorem writeLine_record_witness:
  "(0::nat) < 64 \<and>
   lineCells \<lparr>lineId = 1, lineCells = [40, 41, 105]\<rparr> = 40 # [41, 105] \<and>
   (0::int) \<le> 40 \<and>
   startChunk 64 \<lparr>lineId = 1, lineCells = [40, 41, 105]\<rparr> = Some 1 \<and>
   (0::int) \<le> 1 \<and>
   length (lineCells \<lparr>lineId = 1, lineCells = [40, 41, 105]\<rparr>) \<le> 256 \<and>
   writeLine 64 (Some 1) \<lparr>lineId = 1, lineCells = [40, 41, 105]\<rparr> (0, []) =
     Some (Inr (1, [] @ lineRecord [False] 64 1 0 1 \<lparr>lineId = 1, lineCells = [40, 41, 105]\<rparr>)) \<and>
   (\<exists>acc'. putLines_loop 1 64 (Some 1) (nat 0)
              (lineRecord [False] 64 1 0 1 \<lparr>lineId = 1, lineCells = [40, 41, 105]\<rparr> @ [True])
              (replicate 128 0, {}) = Inr ([True], acc'))"
proof -
  let ?ln = "\<lparr>lineId = 1, lineCells = [40, 41, 105]\<rparr>"
  have w: "(0::nat) < 64" by simp
  have cells: "lineCells ?ln = 40 # [41, 105]" by simp
  have p: "(0::int) \<le> 40" by simp
  have ch: "startChunk 64 ?ln = Some 1"
    by (simp add: startChunk_def chunkId_def jsrem_def)
  have le: "(0::int) \<le> 1" by simp
  have len: "(0::int) \<le> 0 \<and> length (lineCells ?ln) \<le> 256" by simp
  note th = writeLine_record [OF w cells p ch le, of 1 "[]" "[True]" "(replicate 128 0, {})"]
  from th have enc: "writeLine 64 (Some 1) ?ln (0, []) =
      Some (Inr (1, [] @ lineRecord [False] 64 1 0 1 ?ln))"
    by (rule conjunct1)
  from th len have dec: "\<exists>acc'. putLines_loop 1 64 (Some 1) (nat 0)
      (lineRecord [False] 64 1 0 1 ?ln @ [True]) (replicate 128 0, {}) = Inr ([True], acc')"
    by blast
  from w cells p ch le len enc dec show ?thesis by blast
qed

section \<open>Errors of the decoder and the version check (C7)\<close>

lemma failsOnly_Inr [simp]: "failsOnly P (Inr x)"
  by (simp add: failsOnly_def)

lemma failsOnly_Inl [simp]: "failsOnly P (Inl e) = P e"
  by (simp add: failsOnly_def)

lemma failsOnlyD_simps [simp]:
  "failsOnlyD P None" "failsOnlyD P (Some x) = failsOnly P x"
  by (simp_all add: failsOnlyD_def)

lemma failsOnly_thenR:
  "failsOnly P r \<Longrightarrow> (\<And>x. failsOnly P (f x)) \<Longrightarrow> failsOnly P (thenR r f)"
  by (cases r) (simp_all add: thenR_def)

lemma failsOnlyD_thenD:
  "failsOnlyD P r \<Longrightarrow> (\<And>x. failsOnlyD P (f x)) \<Longrightarrow> failsOnlyD P (thenD r f)"
  by (cases r) (auto simp: thenD_def split: sum.splits)

lemma failsOnly_foldR:
  "(\<And>x st. failsOnly P (f x st)) \<Longrightarrow> failsOnly P (foldR f xs st)"
  by (induction xs arbitrary: st) (simp_all add: failsOnly_thenR)

lemma failsOnlyD_foldD:
  "(\<And>x st. failsOnlyD P (f x st)) \<Longrightarrow> failsOnlyD P (foldD f xs st)"
  by (induction xs arbitrary: st) (simp_all add: failsOnlyD_thenD)

lemma readBits_fails: "failsOnly decodeError (readBits n r)"
  by (simp add: readBits_def decodeError_def)

lemma readBoolean_fails: "failsOnly decodeError (readBoolean r)"
  by (simp add: readBoolean_def decodeError_def split: list.splits)

lemma readChars_fails: "failsOnly decodeError (readChars n r)"
  by (induction n arbitrary: r) (auto intro!: failsOnly_thenR readBits_fails)

lemma readString_fails: "failsOnly decodeError (readString n r)"
  unfolding readString_def
  by (auto intro!: failsOnly_thenR readBits_fails readChars_fails simp: decodeError_def)

lemma readTypes_fails: "failsOnly decodeError (readTypes n r)"
  by (induction n arbitrary: r)
     (auto intro!: failsOnly_thenR readBits_fails readBoolean_fails readString_fails)

lemma readTypeMap_fails: "failsOnly decodeError (readTypeMap r)"
  unfolding readTypeMap_def by (auto intro!: failsOnly_thenR readBits_fails readTypes_fails)

lemma readChunkAdvance_fails: "failsOnly decodeError (readChunkAdvance r c)"
  by (induction r arbitrary: c) (simp_all add: decodeError_def)

lemma putSteps_fails: "failsOnly decodeError (putSteps n w ty position r acc)"
proof (induction n arbitrary: position r acc)
  case 0
  then show ?case by simp
next
  case (Suc n)
  show ?case
    unfolding putSteps.simps Let_def
    by (rule failsOnly_thenR [OF readBits_fails]) (simp add: split_beta Suc)
qed

lemma readTypeId_fails: "failsOnly decodeError (readTypeId tlen r)"
  using readBits_fails by (cases tlen) (simp_all add: readTypeId_def decodeError_def)

lemma putLines_loop_fails: "failsOnly decodeError (putLines_loop n w tlen c r acc)"
  by (induction n arbitrary: c r acc)
     (auto intro!: failsOnly_thenR readBits_fails readChunkAdvance_fails readTypeId_fails putSteps_fails
           simp: Let_def)

lemma putLines_fails: "failsOnly decodeError (putLines r result valueMap w tlen)"
  unfolding putLines_def by (auto intro!: failsOnly_thenR readBits_fails putLines_loop_fails)

lemma readPalette_fails: "failsOnly decodeError (readPalette r)"
  unfolding readPalette_def
  by (auto intro!: failsOnly_thenR readBits_fails readBoolean_fails readTypeMap_fails)

lemma readCompressed_fails: "failsOnlyD decodeError (readCompressed r w h)"
  unfolding readCompressed_def
  by (auto intro!: failsOnlyD_thenD readPalette_fails putLines_fails split: option.splits)

lemma decodeBody_fails: "failsOnlyD decodeError (decodeBody r)"
  unfolding decodeBody_def
  by (auto intro!: failsOnlyD_thenD readBits_fails readCompressed_fails)

text \<open>
  C7. \<open>decodeMap\<close> ends with \<open>UnsupportedVersion v\<close> exactly when the first four bits of the
  input can be read and their value \<open>v\<close> is above zero; when their value is zero the result
  is that of the rest of \<open>decodeMap\<close>, which never is \<open>UnsupportedVersion\<close>: it can fail only
  with \<open>Truncated\<close>, \<open>InvalidString\<close> or \<open>UndefinedValue\<close>.
\<close>

theorem decodeMap_version_gate:
  "(decodeMap data = Some (Inl (UnsupportedVersion v))) =
     (\<exists>r. readBits 4 (streamReader data) = Inr (v, r) \<and> 0 < v) \<and>
   (\<forall>r. readBits 4 (streamReader data) = Inr (0, r) \<longrightarrow> decodeMap data = decodeBody r) \<and>
   failsOnlyD decodeError (decodeBody r1)"
proof -
  have body: "decodeBody r \<noteq> Some (Inl (UnsupportedVersion v))" for r
    using decodeBody_fails [of r] by (auto simp: decodeError_def)
  show ?thesis
  proof (cases "readBits 4 (streamReader data)")
    case (Inl e)
    then show ?thesis
      using decodeBody_fails [of r1]
      by (auto simp: decodeMap_def thenD_def readBits_def split: if_splits)
  next
    case (Inr x)
    obtain version r where x: "x = (version, r)" by (cases x)
    show ?thesis
      using Inr x body [of r] decodeBody_fails [of r1]
      by (auto simp: decodeMap_def thenD_def)
  qed
qed

theorem decodeMap_version_gate_witness:
  "readBits 4 (streamReader [16]) = Inr (1, [False, False, False, False]) \<and> (0::nat) < 1 \<and>
   decodeMap [16] = Some (Inl (UnsupportedVersion 1)) \<and>
   readBits 4 (streamReader [0]) = Inr (0, [False, False, False, False]) \<and>
   decodeMap [0] = decodeBody [False, False, False, False]"
proof -
  have r16: "readBits 4 (streamReader [16]) = Inr (1, [False, False, False, False])"
    by (simp add: readBits_def streamReader_def valueOf_def num_eval)
  have r0: "readBits 4 (streamReader [0]) = Inr (0, [False, False, False, False])"
    by (simp add: readBits_def streamReader_def valueOf_def num_eval)
  have "decodeMap [16] = Some (Inl (UnsupportedVersion 1))"
    using decodeMap_version_gate [of "[16]" 1] r16 by simp
  moreover have "decodeMap [0] = decodeBody [False, False, False, False]"
    using decodeMap_version_gate [of "[0]" 0] r0 by simp
  ultimately show ?thesis using r16 r0 by simp
qed

section \<open>Errors of the encoder and the size of the tiles array (C8)\<close>

lemma addConnection_fails: "failsOnly encodeError (addConnection points i entry connectionMap)"
  by (cases entry) (simp add: addConnection_def Let_def encodeError_def)

lemma calculateConnections_fails: "failsOnly encodeError (calculateConnections w points pointMap zoneId tileMap)"
  unfolding calculateConnections_def
  by (intro failsOnly_foldR addConnection_fails)

lemma processConnection_fails:
  "failsOnly encodeError (processConnection fromIsNew toIsNew connection segments border segmentMap)"
  by (simp add: processConnection_def Let_def encodeError_def split: option.splits prod.splits)

lemma stitch_fails: "failsOnly encodeError (stitch points connection st)"
  by (cases st) (auto simp: stitch_def Let_def encodeError_def intro!: failsOnly_thenR processConnection_fails)

lemma calculateNeededLines_fails: "failsOnly encodeError (calculateNeededLines w points pointMap zoneId tileMap)"
  unfolding calculateNeededLines_def
  by (auto intro!: failsOnly_thenR calculateConnections_fails failsOnly_foldR stitch_fails)

lemma chunkLines_fails: "failsOnly encodeError (chunkLines w lines)"
  by (simp add: chunkLines_def encodeError_def split: option.splits)

lemma lineCost_fails: "failsOnly encodeError (lineCost w tlen ln acc)"
  by (cases acc) (simp add: lineCost_def encodeError_def split: option.splits)

lemma calculateCost_fails: "failsOnly encodeError (calculateCost w lines tlen)"
  unfolding calculateCost_def
  by (auto intro!: failsOnly_thenR failsOnly_foldR lineCost_fails)

lemma zoneLines_fails: "failsOnly encodeError (zoneLines w tileMap entry acc)"
  by (cases entry; cases acc) (auto simp: zoneLines_def intro!: failsOnly_thenR calculateNeededLines_fails)

lemma calculateLines_fails: "failsOnly encodeError (calculateLines w wr zones tileMap tlen)"
  unfolding calculateLines_def
  by (auto intro!: failsOnly_thenR failsOnly_foldR zoneLines_fails chunkLines_fails calculateCost_fails)

lemma validateTileTypeUsage_fails: "failsOnly encodeError (validateTileTypeUsage tps zones)"
  by (simp add: validateTileTypeUsage_def encodeError_def split: option.splits)

lemma writeString_fails: "failsOnly encodeError (writeString n s wr)"
  by (simp add: writeString_def encodeError_def)

lemma writeTileType_fails: "failsOnly encodeError (writeTileType t wr)"
  unfolding writeTileType_def
  by (auto intro!: failsOnly_thenR writeString_fails)

lemma writeTypeMap_fails: "failsOnly encodeError (writeTypeMap wr typeMap)"
  unfolding writeTypeMap_def by (intro failsOnly_foldR writeTileType_fails)

lemma writeLine_fails: "failsOnlyD encodeError (writeLine w tlen ln acc)"
  by (cases acc) (simp add: writeLine_def encodeError_def split: option.splits prod.splits list.splits)

lemma writeLines_fails: "failsOnlyD encodeError (writeLines w wr lines tlen)"
  unfolding writeLines_def
  by (auto intro!: failsOnlyD_thenD failsOnlyD_foldD writeLine_fails)

lemma writeCompressed_fails: "failsOnlyD encodeError (writeCompressed wr data)"
  unfolding writeCompressed_def
  by (auto intro!: failsOnlyD_thenD validateTileTypeUsage_fails calculateLines_fails writeTypeMap_fails
        writeLines_fails split: option.splits)

text \<open>
  C8, as the code has it. \<open>encodeMap\<close> never compares the length of \<open>tiles\<close> with
  \<open>width * height\<close> and never ends with \<open>InvalidInput\<close>: whatever the map, it returns bytes,
  or fails with \<open>UnknownTileType\<close>, \<open>StringTooLong\<close>, \<open>TypeError\<close> or \<open>UndefinedValue\<close>, or does
  not return.
\<close>

theorem encodeMap_no_size_check:
  "encodeMap data \<noteq> Some (Inl InvalidInput) \<and> failsOnlyD encodeError (encodeMap data)"
proof -
  have f: "failsOnlyD encodeError (encodeMap data)"
    unfolding encodeMap_def
    by (auto intro!: failsOnlyD_thenD writeCompressed_fails)
  then show ?thesis by (auto simp: encodeError_def)
qed

text \<open>
  C8 as the specification states it fails: a map of width 2 and height 1 with a single tile
  is encoded to 22 bytes.
\<close>

theorem encodeMap_short_tiles_counterexample:
  "length (tiles shortMap) = 1 \<and> width shortMap * height shortMap = 2 \<and>
   encodeMap shortMap =
     Some (Inr [0, 0, 32, 0, 16, 0, 0, 4, 2, 194, 22, 115, 140, 140, 128, 0, 0, 0, 64, 0, 0, 0])"
  by (simp add: shortMap_def palette_eval enc_eval zone_eval lines_eval num_eval cong: thenR_cong_weak thenD_cong_weak prod.case_cong_weak split del: if_split)

section \<open>Round trip (C1) and the width of the type field (C2)\<close>

lemma encodeMap_columnMap:
  "encodeMap columnMap =
     Some (Inr [0, 0, 16, 0, 48, 8, 0, 8, 2, 194, 22, 115, 140, 140, 128, 44, 65,
                104, 68, 241, 24, 0, 0, 0, 8, 0, 0, 0, 4, 32, 0])"
  by (simp add: columnMap_def palette_eval enc_eval zone_eval lines_eval num_eval cong: thenR_cong_weak thenD_cong_weak prod.case_cong_weak split del: if_split)

lemma decodeMap_columnMap:
  "decodeMap [0, 0, 16, 0, 48, 8, 0, 8, 2, 194, 22, 115, 140, 140, 128, 44, 65,
              104, 68, 241, 24, 0, 0, 0, 8, 0, 0, 0, 4, 32, 0] =
     Some (Inr \<lparr>width = 1, height = 3, tiles = [0, 1, 0], types = [grass, water]\<rparr>)"
  by (simp add: palette_eval dec_eval num_eval cong: thenR_cong_weak thenD_cong_weak prod.case_cong_weak split del: if_split)

lemma encodeMap_waterMap:
  "encodeMap waterMap =
     Some (Inr [0, 0, 16, 0, 16, 0, 0, 8, 2, 194, 22, 115, 140, 140, 128, 44, 65,
                104, 68, 241, 24, 0, 0, 0, 4, 0, 0, 0, 0])"
  by (simp add: waterMap_def palette_eval enc_eval zone_eval lines_eval num_eval cong: thenR_cong_weak thenD_cong_weak prod.case_cong_weak split del: if_split)

lemma encodeMap_grassMap:
  "encodeMap grassMap =
     Some (Inr [0, 0, 16, 0, 16, 0, 0, 8, 2, 194, 22, 115, 140, 140, 128, 44, 65,
                104, 68, 241, 24, 0, 0, 0, 4, 0, 0, 0, 0])"
  by (simp add: grassMap_def palette_eval enc_eval zone_eval lines_eval num_eval cong: thenR_cong_weak thenD_cong_weak prod.case_cong_weak split del: if_split)

lemma decodeMap_grassMap:
  "decodeMap [0, 0, 16, 0, 16, 0, 0, 8, 2, 194, 22, 115, 140, 140, 128, 44, 65,
              104, 68, 241, 24, 0, 0, 0, 4, 0, 0, 0, 0] =
     Some (Inr \<lparr>width = 1, height = 1, tiles = [0], types = [grass, water]\<rparr>)"
  by (simp add: palette_eval dec_eval num_eval cong: thenR_cong_weak thenD_cong_weak prod.case_cong_weak split del: if_split)

text \<open>
  C1 fails on the code. The map of one column \<open>[0, 1, 1]\<close>, in which every palette entry is
  used, comes back as \<open>[0, 1, 0]\<close>: the top-to-bottom candidate is the cheaper one, the last
  cell is no anchor, and the top-to-bottom fill never writes it. The map of the single tile
  \<open>1\<close> with the unused entry \<open>0\<close> before it comes back as the tile \<open>0\<close>: the lines carry
  indices into the compacted palette and the stream carries the whole palette. That map
  and the map of the single tile \<open>0\<close> are encoded to the same bytes.
\<close>

theorem roundTrip_loses_tiles:
  "roundTrip columnMap = Some (Inr (columnMap\<lparr>tiles := [0, 1, 0]\<rparr>)) \<and>
   tiles columnMap = [0, 1, 1] \<and>
   roundTrip waterMap = Some (Inr (waterMap\<lparr>tiles := [0]\<rparr>)) \<and>
   tiles waterMap = [1] \<and>
   encodeMap waterMap = encodeMap grassMap"
  by (simp add: roundTrip_def encodeMap_columnMap decodeMap_columnMap encodeMap_waterMap
      encodeMap_grassMap decodeMap_grassMap thenD_simps)
     (simp add: columnMap_def waterMap_def)

text \<open>
  C2 fails on the code. For the map of the single tile \<open>0\<close> with a palette of two entries,
  one of them used, the encoder writes the type field of a line with
  \<open>ceil(log2(1)) = 0\<close> bits and the decoder reads it with \<open>ceil(log2(2)) = 1\<close> bit, the number
  of entries of the palette in the stream.
\<close>

theorem typeLength_differs:
  "encoderTypeLength grassMap = Some (Inr (Some 0)) \<and>
   encodeMap grassMap =
     Some (Inr [0, 0, 16, 0, 16, 0, 0, 8, 2, 194, 22, 115, 140, 140, 128, 44, 65,
                104, 68, 241, 24, 0, 0, 0, 4, 0, 0, 0, 0]) \<and>
   decoderTypeLength [0, 0, 16, 0, 16, 0, 0, 8, 2, 194, 22, 115, 140, 140, 128, 44, 65,
                      104, 68, 241, 24, 0, 0, 0, 4, 0, 0, 0, 0] = Inr (Some 1)"
proof -
  have e: "encoderTypeLength grassMap = Some (Inr (Some 0))"
    by (simp add: encoderTypeLength_def grassMap_def palette_eval enc_eval zone_eval num_eval cong: thenR_cong_weak thenD_cong_weak prod.case_cong_weak split del: if_split)
  have d: "decoderTypeLength [0, 0, 16, 0, 16, 0, 0, 8, 2, 194, 22, 115, 140, 140, 128, 44, 65,
                      104, 68, 241, 24, 0, 0, 0, 4, 0, 0, 0, 0] = Inr (Some 1)"
    by (simp add: decoderTypeLength_def palette_eval dec_eval num_eval cong: thenR_cong_weak thenD_cong_weak prod.case_cong_weak split del: if_split)
  show ?thesis using e d encodeMap_grassMap by simp
qed


section \<open>Lines of a zone (C6)\<close>




lemma inZone_simps [simp]:
  "inZone tm z []"
  "inZone tm z (c # cs) = (aget tm c = Some z \<and> inZone tm z cs)"
  "inZone tm z (xs @ ys) = (inZone tm z xs \<and> inZone tm z ys)"
  "inZone tm z (rev xs) = inZone tm z xs"
  by (auto simp: inZone_def)

lemma validLine_Nil [simp]: "validLine w tm z []"
  by (simp add: validLine_def)






































section \<open>Zone ids (C10)\<close>



lemma adj_range: "adj tls w c d \<Longrightarrow> c < length tls \<and> d < length tls"
  by (simp add: adj_def)

lemma conn_refl [simp]: "conn tls w c c"
  by (simp add: conn_def)






















































end
